theory Spec2Isabelle
  imports Complex_Main "HOL-Library.AList" "HOL-Library.Char_ord" "HOL-Library.List_Lexorder"
    "HOL-Library.Product_Lexorder"
begin

section \<open>Python values shared by the embeddings\<close>

text \<open>
  Exceptions of the source are values. \<open>NotEnoughTheory need have\<close> and
  \<open>NotEnoughLab need have\<close> are the two \<open>ValueError\<close>s raised by the capacity
  pre-check of \<open>schedule_timetable\<close>, told apart by their message.
\<close>

datatype py_error =
    KeyError
  | ZeroDivisionError
  | TypeError
  | AttributeError
  | RecursionError
  | NotEnoughTheory int int
  | NotEnoughLab int int

text \<open>\<open>str(n)\<close> of a Python int: decimal digits, a leading minus sign for negatives.\<close>

definition digit_char :: "nat \<Rightarrow> char" where
  "digit_char n = ''0123456789'' ! n"

fun str_nat :: "nat \<Rightarrow> string" where
  "str_nat n = (if n < 10 then [digit_char n] else str_nat (n div 10) @ [digit_char (n mod 10)])"

declare str_nat.simps [simp del]

definition str_int :: "int \<Rightarrow> string" where
  "str_int i = (if i < 0 then CHR ''-'' # str_nat (nat (- i)) else str_nat (nat i))"

text \<open>
  \<open>s.strip()\<close>: leading and trailing whitespace removed. A \<open>char\<close> stands for a code point
  below 256; these are the ones for which \<open>str.isspace\<close> holds.
\<close>

definition py_isspace :: "char \<Rightarrow> bool" where
  "py_isspace c = (of_char c \<in> set [9, 10, 11, 12, 13, 28, 29, 30, 31, 32, 133, 160 :: nat])"

definition py_strip :: "string \<Rightarrow> string" where
  "py_strip s = rev (dropWhile py_isspace (rev (dropWhile py_isspace s)))"

text \<open>\<open>d[k]\<close> on a dict: raises \<open>KeyError\<close> on a missing key.\<close>

definition py_index :: "('k \<times> 'v) list \<Rightarrow> 'k \<Rightarrow> py_error + 'v" where
  "py_index m k = (case map_of m k of None \<Rightarrow> Inl KeyError | Some v \<Rightarrow> Inr v)"

text \<open>\<open>d.get(k, default)\<close>.\<close>

definition py_get :: "('k \<times> 'v) list \<Rightarrow> 'k \<Rightarrow> 'v \<Rightarrow> 'v" where
  "py_get m k dflt = (case map_of m k of None \<Rightarrow> dflt | Some v \<Rightarrow> v)"

text \<open>\<open>d.get(k, empty)\<close> where \<open>empty\<close> is \<open>{}\<close> or \<open>[]\<close>.\<close>

definition dget :: "('k \<times> 'v list) list \<Rightarrow> 'k \<Rightarrow> 'v list" where
  "dget m k = (case map_of m k of None \<Rightarrow> [] | Some v \<Rightarrow> v)"

section \<open>Section builder (scheduling/utils.py)\<close>

text \<open>
  \<open>math.ceil(num_students / section_size)\<close> on Python ints. The quotient is a float in the
  source; it is the exact rational quotient whenever both operands are below \<open>2^53\<close> in
  absolute value, which is the range modelled here. Division by zero raises.
\<close>

definition py_ceil_div :: "int \<Rightarrow> int \<Rightarrow> py_error + int" where
  "py_ceil_div a b = (if b = 0 then Inl ZeroDivisionError else Inr (- ((- a) div b)))"

text \<open>\<open>f"S{semester_num}{program_code}{i+1}"\<close>\<close>

definition section_name :: "int \<Rightarrow> string \<Rightarrow> nat \<Rightarrow> string" where
  "section_name semester_num program_code i =
     ''S'' @ str_int semester_num @ program_code @ str_int (int i + 1)"

text \<open>\<open>range(count)\<close> is empty for \<open>count \<le> 0\<close>.\<close>

definition build_sections_for_semester ::
  "int \<Rightarrow> int \<Rightarrow> int \<Rightarrow> string \<Rightarrow> py_error + string list" where
  "build_sections_for_semester semester_num num_students section_size program_code =
     (case py_ceil_div num_students section_size of
        Inl e \<Rightarrow> Inl e
      | Inr count \<Rightarrow> Inr (map (section_name semester_num program_code) [0..<nat count]))"

text \<open>
  The count computed by \<open>generate_sections_default\<close> of the backend
  (\<open>max(1, math.ceil(students / section_size)) if students else 0\<close>).
\<close>

definition generate_sections_count :: "int \<Rightarrow> int \<Rightarrow> py_error + int" where
  "generate_sections_count students section_size =
     (if students = 0 then Inr 0
      else case py_ceil_div students section_size of
             Inl e \<Rightarrow> Inl e
           | Inr c \<Rightarrow> Inr (max 1 c))"

section \<open>Usage ledger (scheduling/optimization_utils.py)\<close>

text \<open>
  A Python dict is an association list in insertion order; \<open>map_of\<close> reads it and
  \<open>AList.update\<close> writes it (in place for a present key, appended for a new one).
  The ledger is \<open>{kind: {room: {day: [slots]}}}\<close>, an allocation is
  \<open>(rtype, room, day, slot, label)\<close>.
\<close>

type_synonym day_dict = "(string \<times> int list) list"
type_synonym room_dict = "(string \<times> day_dict) list"
type_synonym usage = "(string \<times> room_dict) list"
type_synonym allocation = "string \<times> string \<times> string \<times> int \<times> string"

definition ensure_kind :: "string \<Rightarrow> usage \<Rightarrow> usage" where
  "ensure_kind k u = (case map_of u k of None \<Rightarrow> AList.update k [] u | Some _ \<Rightarrow> u)"

text \<open>
  One iteration of the loop over \<open>new_allocations\<close>: \<open>usage[rtype]\<close> raises on a missing
  kind; a missing room or day is created empty; the slot is appended unless present.
\<close>

fun merge_step :: "usage \<Rightarrow> allocation \<Rightarrow> py_error + usage" where
  "merge_step u (rtype, room, day, slot, label) =
     (case map_of u rtype of
        None \<Rightarrow> Inl KeyError
      | Some rooms \<Rightarrow>
          let days = dget rooms room;
              slots = dget days day;
              slots' = (if slot \<in> set slots then slots else slots @ [slot])
          in Inr (AList.update rtype (AList.update room (AList.update day slots' days) rooms) u))"

fun merge_loop :: "usage \<Rightarrow> allocation list \<Rightarrow> py_error + usage" where
  "merge_loop u [] = Inr u"
| "merge_loop u (a # as) =
     (case merge_step u a of Inl e \<Rightarrow> Inl e | Inr u' \<Rightarrow> merge_loop u' as)"

definition merge_usage_data :: "usage \<Rightarrow> allocation list \<Rightarrow> py_error + usage" where
  "merge_usage_data existing_usage new_allocations =
     merge_loop (ensure_kind ''lab'' (ensure_kind ''theory'' existing_usage)) new_allocations"

text \<open>The slots listed under \<open>(kind, room, day)\<close>; nothing is listed under an absent key.\<close>

definition slots_at :: "usage \<Rightarrow> string \<Rightarrow> string \<Rightarrow> string \<Rightarrow> int list" where
  "slots_at u kind room day = dget (dget (dget u kind) room) day"

section \<open>Main timetable solver (scheduling/solver.py)\<close>

subsection \<open>Inputs\<close>

text \<open>
  A course is the tuple \<open>(code, cname, is_lab, times_needed, credit_hour)\<close>; a cohort offering
  is the dict \<open>{cohort_section, capacity, day_time_list, cohort_room}\<close>, the room being
  optional; \<open>constraints\<close> holds the four optional runtime limits (the solver tuning
  parameters do not change which schedules are admissible and are left out, as are the
  two label tables, which \<open>schedule_timetable\<close> never reads).
\<close>

datatype course =
  Course (c_code: string) (c_name: string) (c_is_lab: bool) (c_times_needed: int) (c_credit: int)

record cohort_entry =
  cohort_section :: string
  capacity :: int
  day_time_list :: "(string \<times> int) list"
  cohort_room :: "string option"

record solver_constraints =
  maxHoursPerDay :: "int option"
  workingDaysPerWeek :: "int option"
  minGapMinutes :: "int option"
  noClassesAfterHour :: "int option"

record inputs =
  selected_semesters :: "int list"
  semester_courses_map :: "(int \<times> course list) list"
  section_sizes :: "(int \<times> int) list"
  usage_data :: usage
  DAYS :: "string list"
  THEORY_TIMESLOTS :: "int list"
  LAB_SLOTS :: "int list"
  LAB_OVERLAP_MAP :: "(int \<times> int list) list"
  theory_rooms :: "string list"
  lab_rooms :: "string list"
  special_lab_rooms :: "(string \<times> string list) list"
  section_size :: int
  program_code :: string
  cohort_map :: "((int \<times> string) \<times> cohort_entry list) list option"
  enable_cohort :: bool
  constraints :: "solver_constraints option"

text \<open>Backward-compatible defaults of the optional constraints.\<close>

definition max_hours_per_day :: "inputs \<Rightarrow> int" where
  "max_hours_per_day inp =
     (case constraints inp of None \<Rightarrow> 8
      | Some c \<Rightarrow> (case maxHoursPerDay c of None \<Rightarrow> 8 | Some h \<Rightarrow> h))"

definition working_days_per_week :: "inputs \<Rightarrow> int" where
  "working_days_per_week inp =
     (case constraints inp of None \<Rightarrow> 6
      | Some c \<Rightarrow> (case workingDaysPerWeek c of None \<Rightarrow> 6 | Some w \<Rightarrow> w))"

definition min_gap_minutes :: "inputs \<Rightarrow> int" where
  "min_gap_minutes inp =
     (case constraints inp of None \<Rightarrow> 15
      | Some c \<Rightarrow> (case minGapMinutes c of None \<Rightarrow> 15 | Some g \<Rightarrow> g))"

definition no_classes_after_hour :: "inputs \<Rightarrow> int option" where
  "no_classes_after_hour inp =
     (case constraints inp of None \<Rightarrow> None | Some c \<Rightarrow> noClassesAfterHour c)"

text \<open>The slot clock of step 12, in minutes after midnight.\<close>

definition theory_start_times :: "(int \<times> int) list" where
  "theory_start_times = [(0, 480), (1, 570), (2, 660), (3, 750), (4, 840), (5, 930), (6, 1020)]"

definition theory_end_times :: "(int \<times> int) list" where
  "theory_end_times = [(0, 555), (1, 645), (2, 735), (3, 825), (4, 915), (5, 1005), (6, 1095)]"

definition lab_start_times :: "(int \<times> int) list" where
  "lab_start_times = [(0, 480), (1, 660), (2, 840), (3, 1020)]"

definition lab_end_times :: "(int \<times> int) list" where
  "lab_end_times = [(0, 630), (1, 810), (2, 990), (3, 1170)]"

subsection \<open>Steps 1 to 4: room lists, capacity pre-check, sections\<close>

text \<open>Step 1: \<open>theory_to_lab_map\<close>, the lab slots that overlap a theory slot.\<close>

definition theory_to_lab_map :: "inputs \<Rightarrow> int \<Rightarrow> int list" where
  "theory_to_lab_map inp t =
     [ls. ls \<leftarrow> LAB_SLOTS inp, t' \<leftarrow> py_get (LAB_OVERLAP_MAP inp) ls [], t' = t]"

text \<open>
  Step 2. \<open>all_special_labs\<close> is a Python set and \<open>combined_labs\<close> a list made from a set:
  only membership and the number of distinct names are determined, and only these are
  used.
\<close>

definition all_special_labs :: "inputs \<Rightarrow> string list" where
  "all_special_labs inp = remdups (concat (map (\<lambda>(c, slist). map py_strip slist) (special_lab_rooms inp)))"

definition normal_labs :: "inputs \<Rightarrow> string list" where
  "normal_labs inp = [lr. lr \<leftarrow> map py_strip (lab_rooms inp), lr \<notin> set (all_special_labs inp)]"

definition combined_labs :: "inputs \<Rightarrow> string list" where
  "combined_labs inp = remdups (normal_labs inp @ all_special_labs inp)"

text \<open>Step 3: used ledger entries, capacities, demand.\<close>

definition used_entries :: "room_dict \<Rightarrow> int" where
  "used_entries rooms = (\<Sum>(r, days) \<leftarrow> rooms. \<Sum>(d, ss) \<leftarrow> days. int (length ss))"

definition total_theory_capacity :: "inputs \<Rightarrow> int" where
  "total_theory_capacity inp =
     int (length (DAYS inp)) * int (length (THEORY_TIMESLOTS inp)) * int (length (theory_rooms inp))"

definition total_lab_capacity :: "inputs \<Rightarrow> int" where
  "total_lab_capacity inp =
     int (length (DAYS inp)) * int (length (LAB_SLOTS inp)) * int (length (combined_labs inp))"

text \<open>
  The demand loop: \<open>semester_courses_map[sem]\<close> raises on a semester without a course list;
  a lab course adds its \<open>times_needed\<close> to \<open>needed_lab\<close>, any other to \<open>needed_theory\<close>.
\<close>

fun needed_course :: "int \<times> int \<Rightarrow> course \<Rightarrow> int \<times> int" where
  "needed_course (needed_theory, needed_lab) c =
     (if c_is_lab c then (needed_theory, needed_lab + c_times_needed c)
      else (needed_theory + c_times_needed c, needed_lab))"

fun needed_loop :: "inputs \<Rightarrow> int \<times> int \<Rightarrow> int list \<Rightarrow> py_error + (int \<times> int)" where
  "needed_loop inp acc [] = Inr acc"
| "needed_loop inp acc (sem # sems) =
     (case py_index (semester_courses_map inp) sem of
        Inl e \<Rightarrow> Inl e
      | Inr cs \<Rightarrow> needed_loop inp (foldl needed_course acc cs) sems)"

definition capacity_check :: "inputs \<Rightarrow> py_error + unit" where
  "capacity_check inp =
     (case py_index (usage_data inp) ''theory'' of
        Inl e \<Rightarrow> Inl e
      | Inr th \<Rightarrow>
     (case py_index (usage_data inp) ''lab'' of
        Inl e \<Rightarrow> Inl e
      | Inr lb \<Rightarrow>
     (let available_theory = total_theory_capacity inp - used_entries th;
          available_lab = total_lab_capacity inp - used_entries lb
      in case needed_loop inp (0, 0) (selected_semesters inp) of
           Inl e \<Rightarrow> Inl e
         | Inr (needed_theory, needed_lab) \<Rightarrow>
             if needed_theory > available_theory then Inl (NotEnoughTheory needed_theory available_theory)
             else if needed_lab > available_lab then Inl (NotEnoughLab needed_lab available_lab)
             else Inr ())))"

text \<open>Step 4: \<open>semester_sections_map2\<close> and \<open>all_sections\<close>.\<close>

fun sections_loop ::
  "inputs \<Rightarrow> (int \<times> string list) list \<times> string list \<Rightarrow> int list
     \<Rightarrow> py_error + ((int \<times> string list) list \<times> string list)" where
  "sections_loop inp acc [] = Inr acc"
| "sections_loop inp (ssm, all_secs) (sem # sems) =
     (case py_index (section_sizes inp) sem of
        Inl e \<Rightarrow> Inl e
      | Inr n_students \<Rightarrow>
     (case build_sections_for_semester sem n_students (section_size inp) (program_code inp) of
        Inl e \<Rightarrow> Inl e
      | Inr secs \<Rightarrow> sections_loop inp (AList.update sem secs ssm, all_secs @ secs) sems))"

definition build_sections :: "inputs \<Rightarrow> py_error + ((int \<times> string list) list \<times> string list)" where
  "build_sections inp = sections_loop inp ([], []) (selected_semesters inp)"

subsection \<open>Steps 5 and 6: decision variables\<close>

text \<open>
  A CP variable is identified with the dictionary key under which the source stores it;
  a solution of the model gives every variable an integer. \<open>asg\<close> values the
  \<open>assignments\<close> dict, keyed \<open>(sec, code, day, slot, room)\<close> for theory and lab variables
  alike, \<open>day_asg\<close> the \<open>day_assigned\<close> dict, \<open>cohort_asg\<close> the \<open>assigned_cohort_sec\<close>
  dict, \<open>day_use\<close> the \<open>day_in_use\<close> dict; the remaining fields value the auxiliary
  variables of step 12.
\<close>

type_synonym akey = "string \<times> string \<times> string \<times> int \<times> string"
type_synonym ckey = "string \<times> string \<times> string"
type_synonym skey = "string \<times> string \<times> int"

record valuation =
  asg :: "akey \<Rightarrow> int"
  day_asg :: "ckey \<Rightarrow> int"
  cohort_asg :: "ckey \<Rightarrow> int"
  day_use :: "string \<times> string \<Rightarrow> int"
  hn_theory :: "skey \<Rightarrow> int"
  hn_lab :: "skey \<Rightarrow> int"
  hc_theory :: "skey \<Rightarrow> int"
  hc_lab :: "skey \<Rightarrow> int"
  h_theory :: "skey \<Rightarrow> int"
  h_lab :: "skey \<Rightarrow> int"
  th_start :: "skey \<Rightarrow> int"
  th_end :: "skey \<Rightarrow> int"
  lb_start :: "skey \<Rightarrow> int"
  lb_end :: "skey \<Rightarrow> int"
  v_min_start :: "string \<times> string \<Rightarrow> int"
  v_max_end :: "string \<times> string \<Rightarrow> int"

definition blackout :: "string \<Rightarrow> int \<Rightarrow> bool" where
  "blackout d t = (d = ''Friday'' \<and> t = 3)"

definition courses_of :: "inputs \<Rightarrow> int \<Rightarrow> course list" where
  "courses_of inp sem = dget (semester_courses_map inp) sem"

text \<open>The demand of step 3 in closed form: the \<open>times_needed\<close> of the lab courses, or of the
  other courses, of the selected semesters, each course counted once per semester.\<close>

definition need_of :: "inputs \<Rightarrow> bool \<Rightarrow> int" where
  "need_of inp lab =
     (\<Sum>sem \<leftarrow> selected_semesters inp. \<Sum>c \<leftarrow> courses_of inp sem. if c_is_lab c = lab then c_times_needed c else 0)"

text \<open>\<open>enable_cohort and cohort_map\<close>: the map is neither \<open>None\<close> nor empty.\<close>

definition cohort_dict :: "inputs \<Rightarrow> ((int \<times> string) \<times> cohort_entry list) list" where
  "cohort_dict inp = (case cohort_map inp of None \<Rightarrow> [] | Some m \<Rightarrow> m)"

definition cohort_on :: "inputs \<Rightarrow> bool" where
  "cohort_on inp = (enable_cohort inp \<and> cohort_dict inp \<noteq> [])"

text \<open>\<open>code in is_cohort_course.get(sem, [])\<close>; the dict is filled only when cohort is on.\<close>

definition is_cohort_course :: "inputs \<Rightarrow> int \<Rightarrow> string \<Rightarrow> bool" where
  "is_cohort_course inp sem code = (cohort_on inp \<and> (sem, code) \<in> set (map fst (cohort_dict inp)))"

definition csections :: "inputs \<Rightarrow> int \<Rightarrow> string \<Rightarrow> cohort_entry list" where
  "csections inp sem code = dget (cohort_dict inp) (sem, code)"

text \<open>Step 5: the keys of \<open>assigned_cohort_sec\<close>.\<close>

definition cohort_keys :: "inputs \<Rightarrow> (int \<times> string list) list \<Rightarrow> ckey list" where
  "cohort_keys inp ssm =
     [(normal_sec, c_code c, cohort_section e).
        sem \<leftarrow> selected_semesters inp, c \<leftarrow> courses_of inp sem,
        is_cohort_course inp sem (c_code c),
        normal_sec \<leftarrow> dget ssm sem, e \<leftarrow> csections inp sem (c_code c)]"

definition has_cvar :: "inputs \<Rightarrow> (int \<times> string list) list \<Rightarrow> ckey \<Rightarrow> bool" where
  "has_cvar inp ssm vkey = (vkey \<in> set (cohort_keys inp ssm))"

text \<open>The labs a lab course may use: its special labs if it has any, else the normal labs.\<close>

definition valid_labs :: "inputs \<Rightarrow> string \<Rightarrow> string list" where
  "valid_labs inp code =
     (case map_of (special_lab_rooms inp) code of
        Some slist \<Rightarrow> map py_strip slist
      | None \<Rightarrow> normal_labs inp)"

text \<open>Step 6: the keys created for one (section, course), then for all of them.\<close>

definition course_keys :: "inputs \<Rightarrow> string \<Rightarrow> course \<Rightarrow> akey list" where
  "course_keys inp sec c =
     (if \<not> c_is_lab c then
        [(sec, c_code c, d, t, r).
           d \<leftarrow> DAYS inp, t \<leftarrow> THEORY_TIMESLOTS inp, \<not> blackout d t,
           r \<leftarrow> theory_rooms inp, t \<notin> set (slots_at (usage_data inp) ''theory'' r d)]
      else
        [(sec, c_code c, d, ls, labr).
           d \<leftarrow> DAYS inp, ls \<leftarrow> LAB_SLOTS inp, labr \<leftarrow> valid_labs inp (c_code c),
           ls \<notin> set (slots_at (usage_data inp) ''lab'' labr d)])"

text \<open>The (section, course) pairs that are scheduled freely: every non-cohort course of a
  selected semester, for each section of that semester.\<close>

definition normal_pairs :: "inputs \<Rightarrow> (int \<times> string list) list \<Rightarrow> (string \<times> course) list" where
  "normal_pairs inp ssm =
     [(sec, c). sem \<leftarrow> selected_semesters inp, sec \<leftarrow> dget ssm sem, c \<leftarrow> courses_of inp sem,
        \<not> is_cohort_course inp sem (c_code c)]"

definition assignment_keys :: "inputs \<Rightarrow> (int \<times> string list) list \<Rightarrow> akey list" where
  "assignment_keys inp ssm = concat (map (\<lambda>(sec, c). course_keys inp sec c) (normal_pairs inp ssm))"

definition has_var :: "inputs \<Rightarrow> (int \<times> string list) list \<Rightarrow> akey \<Rightarrow> bool" where
  "has_var inp ssm k = (k \<in> set (assignment_keys inp ssm))"

text \<open>\<open>assignments.get(key, 0)\<close> inside a sum.\<close>

definition aval :: "inputs \<Rightarrow> (int \<times> string list) list \<Rightarrow> valuation \<Rightarrow> akey \<Rightarrow> int" where
  "aval inp ssm val k = (if has_var inp ssm k then asg val k else 0)"

text \<open>Every \<open>NewBoolVar\<close> has domain \<open>{0, 1}\<close>.\<close>

definition is_bool :: "int \<Rightarrow> bool" where
  "is_bool x = (x = 0 \<or> x = 1)"

text \<open>
  The theory slots of a day, and the lab slots of the week, for which the (section, course)
  has a variable: the loops \<open>assignments.get(...) is not None\<close> of steps 7, 11 and 14.
\<close>

definition theory_day_slots ::
  "inputs \<Rightarrow> (int \<times> string list) list \<Rightarrow> string \<Rightarrow> string \<Rightarrow> string \<Rightarrow> (int \<times> string) list" where
  "theory_day_slots inp ssm sec code d =
     [(t, r). t \<leftarrow> THEORY_TIMESLOTS inp, \<not> blackout d t, r \<leftarrow> theory_rooms inp,
        has_var inp ssm (sec, code, d, t, r)]"

definition lab_day_slots ::
  "inputs \<Rightarrow> (int \<times> string list) list \<Rightarrow> string \<Rightarrow> string \<Rightarrow> string \<Rightarrow> (int \<times> string) list" where
  "lab_day_slots inp ssm sec code d =
     [(ls, lbr). ls \<leftarrow> LAB_SLOTS inp, lbr \<leftarrow> valid_labs inp code,
        has_var inp ssm (sec, code, d, ls, lbr)]"

definition theory_placements ::
  "inputs \<Rightarrow> (int \<times> string list) list \<Rightarrow> string \<Rightarrow> string \<Rightarrow> (string \<times> int \<times> string) list" where
  "theory_placements inp ssm sec code =
     [(d, t, r). d \<leftarrow> DAYS inp, (t, r) \<leftarrow> theory_day_slots inp ssm sec code d]"

definition lab_placements ::
  "inputs \<Rightarrow> (int \<times> string list) list \<Rightarrow> string \<Rightarrow> string \<Rightarrow> (string \<times> int \<times> string) list" where
  "lab_placements inp ssm sec code =
     [(d, ls, lbr). d \<leftarrow> DAYS inp, (ls, lbr) \<leftarrow> lab_day_slots inp ssm sec code d]"

definition var_at :: "valuation \<Rightarrow> string \<Rightarrow> string \<Rightarrow> string \<times> int \<times> string \<Rightarrow> int" where
  "var_at val sec code p = (case p of (d, s, r) \<Rightarrow> asg val (sec, code, d, s, r))"

subsection \<open>Step 7: demand, distinct days, no consecutive days\<close>

definition day_sum ::
  "inputs \<Rightarrow> (int \<times> string list) list \<Rightarrow> valuation \<Rightarrow> string \<Rightarrow> string \<Rightarrow> string \<Rightarrow> int" where
  "day_sum inp ssm val sec code d =
     sum_list (map (\<lambda>(t, r). asg val (sec, code, d, t, r)) (theory_day_slots inp ssm sec code d))"

definition theory_demand ::
  "inputs \<Rightarrow> (int \<times> string list) list \<Rightarrow> valuation \<Rightarrow> string \<Rightarrow> course \<Rightarrow> bool" where
  "theory_demand inp ssm val sec c =
     (sum_list (map (var_at val sec (c_code c)) (theory_placements inp ssm sec (c_code c)))
        = c_times_needed c
      \<and> sum_list (map (\<lambda>d. day_asg val (sec, c_code c, d)) (DAYS inp)) = c_times_needed c
      \<and> (\<forall>d \<in> set (DAYS inp).
            day_sum inp ssm val sec (c_code c) d \<ge> day_asg val (sec, c_code c, d)
          \<and> day_sum inp ssm val sec (c_code c) d
               \<le> int (length (THEORY_TIMESLOTS inp)) * day_asg val (sec, c_code c, d))
      \<and> (c_times_needed c > 1 \<longrightarrow>
            (\<forall>i \<in> set [0..<length (DAYS inp) - 1].
               day_asg val (sec, c_code c, DAYS inp ! i)
                 + day_asg val (sec, c_code c, DAYS inp ! (i + 1)) \<le> 1)))"

definition lab_demand ::
  "inputs \<Rightarrow> (int \<times> string list) list \<Rightarrow> valuation \<Rightarrow> string \<Rightarrow> course \<Rightarrow> bool" where
  "lab_demand inp ssm val sec c =
     (sum_list (map (var_at val sec (c_code c)) (lab_placements inp ssm sec (c_code c)))
        = c_times_needed c)"

definition demand_constraints :: "inputs \<Rightarrow> (int \<times> string list) list \<Rightarrow> valuation \<Rightarrow> bool" where
  "demand_constraints inp ssm val =
     (\<forall>(sec, c) \<in> set (normal_pairs inp ssm).
        if c_is_lab c then lab_demand inp ssm val sec c else theory_demand inp ssm val sec c)"

text \<open>Domains of the variables of steps 5, 6 and 11.\<close>

definition domain_constraints ::
  "inputs \<Rightarrow> (int \<times> string list) list \<Rightarrow> string list \<Rightarrow> valuation \<Rightarrow> bool" where
  "domain_constraints inp ssm all_sections val =
     ((\<forall>k \<in> set (assignment_keys inp ssm). is_bool (asg val k))
      \<and> (\<forall>(sec, c) \<in> set (normal_pairs inp ssm).
            \<not> c_is_lab c \<longrightarrow> (\<forall>d \<in> set (DAYS inp). is_bool (day_asg val (sec, c_code c, d))))
      \<and> (\<forall>vkey \<in> set (cohort_keys inp ssm). is_bool (cohort_asg val vkey))
      \<and> (\<forall>sec \<in> set all_sections. \<forall>d \<in> set (DAYS inp). is_bool (day_use val (sec, d))))"

subsection \<open>Steps 8 and 9: rooms and sections are not double-booked\<close>

definition courses_of_kind :: "inputs \<Rightarrow> bool \<Rightarrow> course list" where
  "courses_of_kind inp lab =
     [c. sem2 \<leftarrow> selected_semesters inp, c \<leftarrow> courses_of inp sem2,
        c_is_lab c = lab \<and> \<not> is_cohort_course inp sem2 (c_code c)]"

definition pairs_of_kind :: "inputs \<Rightarrow> (int \<times> string list) list \<Rightarrow> bool \<Rightarrow> (string \<times> course) list" where
  "pairs_of_kind inp ssm lab = [(sec, c). (sec, c) \<leftarrow> normal_pairs inp ssm, c_is_lab c = lab]"

definition room_mutex :: "inputs \<Rightarrow> (int \<times> string list) list \<Rightarrow> valuation \<Rightarrow> bool" where
  "room_mutex inp ssm val =
     ((\<forall>d \<in> set (DAYS inp). \<forall>t \<in> set (THEORY_TIMESLOTS inp). \<not> blackout d t \<longrightarrow>
         (\<forall>r \<in> set (theory_rooms inp).
            sum_list (map (\<lambda>(sec, c). aval inp ssm val (sec, c_code c, d, t, r))
                       (pairs_of_kind inp ssm False)) \<le> 1))
      \<and> (\<forall>d \<in> set (DAYS inp). \<forall>ls \<in> set (LAB_SLOTS inp). \<forall>labr \<in> set (combined_labs inp).
            sum_list (map (\<lambda>(sec, c). aval inp ssm val (sec, c_code c, d, ls, labr))
                       (pairs_of_kind inp ssm True)) \<le> 1))"

definition section_mutex ::
  "inputs \<Rightarrow> (int \<times> string list) list \<Rightarrow> string list \<Rightarrow> valuation \<Rightarrow> bool" where
  "section_mutex inp ssm all_sections val =
     (\<forall>sec \<in> set all_sections. \<forall>d \<in> set (DAYS inp).
        (\<forall>t \<in> set (THEORY_TIMESLOTS inp). \<not> blackout d t \<longrightarrow>
           sum_list [aval inp ssm val (sec, c_code c, d, t, r).
                       c \<leftarrow> courses_of_kind inp False, r \<leftarrow> theory_rooms inp] \<le> 1)
      \<and> (\<forall>ls \<in> set (LAB_SLOTS inp).
           sum_list [aval inp ssm val (sec, c_code c, d, ls, labr).
                       c \<leftarrow> courses_of_kind inp True, labr \<leftarrow> combined_labs inp] \<le> 1))"

definition overlap_mutex ::
  "inputs \<Rightarrow> (int \<times> string list) list \<Rightarrow> string list \<Rightarrow> valuation \<Rightarrow> bool" where
  "overlap_mutex inp ssm all_sections val =
     (\<forall>sec \<in> set all_sections. \<forall>d \<in> set (DAYS inp).
      \<forall>c \<in> set (courses_of_kind inp True). \<forall>ls \<in> set (LAB_SLOTS inp).
      \<forall>labr \<in> set (valid_labs inp (c_code c)).
        has_var inp ssm (sec, c_code c, d, ls, labr) \<longrightarrow>
        (\<forall>c2 \<in> set (courses_of_kind inp False).
         \<forall>t2 \<in> set (py_get (LAB_OVERLAP_MAP inp) ls []). \<not> blackout d t2 \<longrightarrow>
           (\<forall>rr2 \<in> set (theory_rooms inp).
              has_var inp ssm (sec, c_code c2, d, t2, rr2) \<longrightarrow>
              asg val (sec, c_code c, d, ls, labr) + asg val (sec, c_code c2, d, t2, rr2) \<le> 1)))"

subsection \<open>Step 10: cohort courses\<close>

text \<open>The cohort courses of a semester, as the loops of step 10 select them.\<close>

definition cohort_courses :: "inputs \<Rightarrow> int \<Rightarrow> course list" where
  "cohort_courses inp sem = [c. c \<leftarrow> courses_of inp sem, is_cohort_course inp sem (c_code c)]"

text \<open>The courses a cohort course \<open>code\<close> is kept apart from: those of another code that are
  not cohort courses themselves.\<close>

definition other_courses :: "inputs \<Rightarrow> string \<Rightarrow> course list" where
  "other_courses inp code =
     [c2. semX \<leftarrow> selected_semesters inp, c2 \<leftarrow> courses_of inp semX,
        \<not> (c_code c2 = code \<or> is_cohort_course inp semX (c_code c2))]"

text \<open>(C): the assignment variables that clash with one fixed \<open>(the_day, the_slot)\<close> of a
  cohort offering, for one normal section.\<close>

definition cohort_clash_keys ::
  "inputs \<Rightarrow> (int \<times> string list) list \<Rightarrow> string \<Rightarrow> string \<Rightarrow> string \<Rightarrow> int \<Rightarrow> akey list" where
  "cohort_clash_keys inp ssm normal_sec code the_day the_slot =
     [k. c2 \<leftarrow> other_courses inp code,
         k \<leftarrow> (if \<not> c_is_lab c2
                then [(normal_sec, c_code c2, the_day, the_slot, r2). r2 \<leftarrow> theory_rooms inp]
                else [(normal_sec, c_code c2, the_day, the_slot, lbX). lbX \<leftarrow> valid_labs inp (c_code c2)]),
         has_var inp ssm k]
     @ (if the_slot \<in> set (LAB_SLOTS inp) then
          [k. t2 \<leftarrow> py_get (LAB_OVERLAP_MAP inp) the_slot [], \<not> blackout the_day t2,
              c2 \<leftarrow> other_courses inp code, \<not> c_is_lab c2,
              k \<leftarrow> [(normal_sec, c_code c2, the_day, t2, rr2). rr2 \<leftarrow> theory_rooms inp],
              has_var inp ssm k]
        else [])
     @ (if the_slot \<in> set (THEORY_TIMESLOTS inp) then
          [k. ls2 \<leftarrow> theory_to_lab_map inp the_slot,
              c2 \<leftarrow> other_courses inp code, c_is_lab c2,
              k \<leftarrow> [(normal_sec, c_code c2, the_day, ls2, lbX). lbX \<leftarrow> valid_labs inp (c_code c2)],
              has_var inp ssm k]
        else [])"

definition slots_overlap :: "inputs \<Rightarrow> string \<Rightarrow> int \<Rightarrow> bool \<Rightarrow> string \<Rightarrow> int \<Rightarrow> bool \<Rightarrow> bool" where
  "slots_overlap inp day1 slot1 is_lab1 day2 slot2 is_lab2 =
     (if day1 \<noteq> day2 then False
      else if \<not> is_lab1 \<and> \<not> is_lab2 then slot1 = slot2
      else if is_lab1 \<and> is_lab2 then slot1 = slot2
      else if \<not> is_lab1 \<and> is_lab2 then slot1 \<in> set (py_get (LAB_OVERLAP_MAP inp) slot2 [])
      else slot2 \<in> set (py_get (LAB_OVERLAP_MAP inp) slot1 []))"

text \<open>\<open>course_is_lab[(sem, code)]\<close>: a dict comprehension, so the last course of that code
  decides.\<close>

definition course_is_lab :: "inputs \<Rightarrow> int \<Rightarrow> string \<Rightarrow> bool" where
  "course_is_lab inp sem code =
     (case [c. c \<leftarrow> rev (courses_of inp sem), c_code c = code] of
        [] \<Rightarrow> False
      | c # _ \<Rightarrow> c_is_lab c)"

fun ordered_pairs :: "'a list \<Rightarrow> ('a \<times> 'a) list" where
  "ordered_pairs [] = []"
| "ordered_pairs (x # xs) = map (Pair x) xs @ ordered_pairs xs"

definition cohort_constraints :: "inputs \<Rightarrow> (int \<times> string list) list \<Rightarrow> valuation \<Rightarrow> bool" where
  "cohort_constraints inp ssm val =
     (cohort_on inp \<longrightarrow>
      \<comment> \<open>(A) exactly one cohort section per normal section\<close>
      (\<forall>sem \<in> set (selected_semesters inp). \<forall>c \<in> set (cohort_courses inp sem).
       \<forall>normal_sec \<in> set (dget ssm sem).
         sum_list [cohort_asg val (normal_sec, c_code c, cohort_section e).
                     e \<leftarrow> csections inp sem (c_code c),
                     has_cvar inp ssm (normal_sec, c_code c, cohort_section e)] = 1)
      \<comment> \<open>(B) capacity, 50 seats per normal section\<close>
      \<and> (\<forall>(csem, ccode) \<in> set (map fst (cohort_dict inp)). csem \<in> set (selected_semesters inp) \<longrightarrow>
          (\<forall>e \<in> set (csections inp csem ccode).
             sum_list [cohort_asg val (normal_sec, ccode, cohort_section e) * 50.
                         normal_sec \<leftarrow> dget ssm csem,
                         has_cvar inp ssm (normal_sec, ccode, cohort_section e)] \<le> capacity e))
      \<comment> \<open>(C) a chosen offering blocks the overlapping slots of the section\<close>
      \<and> (\<forall>sem \<in> set (selected_semesters inp). \<forall>c \<in> set (cohort_courses inp sem).
          \<forall>e \<in> set (csections inp sem (c_code c)). \<forall>normal_sec \<in> set (dget ssm sem).
            has_cvar inp ssm (normal_sec, c_code c, cohort_section e) \<longrightarrow>
            (\<forall>(the_day, the_slot) \<in> set (day_time_list e). \<not> blackout the_day the_slot \<longrightarrow>
               (\<forall>k \<in> set (cohort_clash_keys inp ssm normal_sec (c_code c) the_day the_slot).
                  cohort_asg val (normal_sec, c_code c, cohort_section e) + asg val k \<le> 1)))
      \<comment> \<open>(D) overlapping offerings of two cohort courses exclude each other\<close>
      \<and> (\<forall>sem \<in> set (selected_semesters inp).
          \<forall>(c1, c2) \<in> set (ordered_pairs (cohort_courses inp sem)).
          \<forall>csec1 \<in> set (csections inp sem (c_code c1)). \<forall>csec2 \<in> set (csections inp sem (c_code c2)).
            (\<exists>(d1, s1) \<in> set (day_time_list csec1). \<exists>(d2, s2) \<in> set (day_time_list csec2).
               slots_overlap inp d1 s1 (course_is_lab inp sem (c_code c1))
                                 d2 s2 (course_is_lab inp sem (c_code c2))) \<longrightarrow>
            (\<forall>normal_sec \<in> set (dget ssm sem).
               has_cvar inp ssm (normal_sec, c_code c1, cohort_section csec1)
               \<and> has_cvar inp ssm (normal_sec, c_code c2, cohort_section csec2) \<longrightarrow>
               cohort_asg val (normal_sec, c_code c1, cohort_section csec1)
                 + cohort_asg val (normal_sec, c_code c2, cohort_section csec2) \<le> 1)))"

subsection \<open>Step 11: working days\<close>

text \<open>All variables of one section on one day, over the non-cohort courses of its semester.\<close>

definition normal_vars ::
  "inputs \<Rightarrow> (int \<times> string list) list \<Rightarrow> valuation \<Rightarrow> int \<Rightarrow> string \<Rightarrow> string \<Rightarrow> int list" where
  "normal_vars inp ssm val sem sec d =
     concat [if \<not> c_is_lab c
             then map (\<lambda>(t, r). asg val (sec, c_code c, d, t, r)) (theory_day_slots inp ssm sec (c_code c) d)
             else map (\<lambda>(ls, lbR). asg val (sec, c_code c, d, ls, lbR)) (lab_day_slots inp ssm sec (c_code c) d).
             c \<leftarrow> courses_of inp sem, \<not> is_cohort_course inp sem (c_code c)]"

definition working_days ::
  "inputs \<Rightarrow> (int \<times> string list) list \<Rightarrow> string list \<Rightarrow> valuation \<Rightarrow> bool" where
  "working_days inp ssm all_sections val =
     ((\<forall>sem \<in> set (selected_semesters inp). \<forall>sec \<in> set (dget ssm sem). \<forall>d \<in> set (DAYS inp).
         sum_list (normal_vars inp ssm val sem sec d) \<ge> day_use val (sec, d)
       \<and> sum_list (normal_vars inp ssm val sem sec d) \<le> 999 * day_use val (sec, d))
      \<and> (cohort_on inp \<longrightarrow>
           (\<forall>sem \<in> set (selected_semesters inp). \<forall>sec \<in> set (dget ssm sem).
            \<forall>c \<in> set (cohort_courses inp sem). \<forall>e \<in> set (csections inp sem (c_code c)).
              has_cvar inp ssm (sec, c_code c, cohort_section e) \<longrightarrow>
              (\<forall>(the_day, the_slot) \<in> set (day_time_list e). \<not> blackout the_day the_slot \<longrightarrow>
                 the_day \<in> set (DAYS inp)
                 \<and> cohort_asg val (sec, c_code c, cohort_section e) \<le> day_use val (sec, the_day))))
      \<and> (\<forall>sec \<in> set all_sections.
            sum_list (map (\<lambda>d. day_use val (sec, d)) (DAYS inp)) \<le> working_days_per_week inp))"

subsection \<open>Step 12: cutoff, slot usage, gaps, daily span\<close>

text \<open>
  The cutoff loop reads only the slot index \<open>key[3]\<close> of an assignment key and asks first
  whether it is a theory slot index, then whether it is a lab slot index.
\<close>

definition ends_after :: "inputs \<Rightarrow> int \<Rightarrow> int \<Rightarrow> bool" where
  "ends_after inp slot cutoff_end_minute =
     (if slot \<in> set (THEORY_TIMESLOTS inp) then py_get theory_end_times slot 0 > cutoff_end_minute
      else if slot \<in> set (LAB_SLOTS inp) then py_get lab_end_times slot 0 > cutoff_end_minute
      else False)"

text \<open>\<open>violates\<close>: some listed time of the offering ends after the cutoff.\<close>

definition cohort_violates :: "inputs \<Rightarrow> cohort_entry \<Rightarrow> int \<Rightarrow> bool" where
  "cohort_violates inp e cutoff_end_minute =
     (\<exists>(the_day, the_slot) \<in> set (day_time_list e). ends_after inp the_slot cutoff_end_minute)"

definition cutoff_constraints :: "inputs \<Rightarrow> (int \<times> string list) list \<Rightarrow> valuation \<Rightarrow> bool" where
  "cutoff_constraints inp ssm val =
     (case no_classes_after_hour inp of
        None \<Rightarrow> True
      | Some h \<Rightarrow>
          (\<forall>k \<in> set (assignment_keys inp ssm).
             (case k of (sec, code, d, slot, room) \<Rightarrow> ends_after inp slot (h * 60) \<longrightarrow> asg val k = 0))
          \<and> (cohort_on inp \<longrightarrow>
               (\<forall>sem \<in> set (selected_semesters inp). \<forall>c \<in> set (cohort_courses inp sem).
                \<forall>e \<in> set (csections inp sem (c_code c)).
                  cohort_violates inp e (h * 60) \<longrightarrow>
                  (\<forall>normal_sec \<in> set (dget ssm sem).
                     has_cvar inp ssm (normal_sec, c_code c, cohort_section e) \<longrightarrow>
                     cohort_asg val (normal_sec, c_code c, cohort_section e) = 0))))"

definition in_range :: "int \<Rightarrow> int \<Rightarrow> int \<Rightarrow> bool" where
  "in_range lo hi x = (lo \<le> x \<and> x \<le> hi)"

definition slot_usage ::
  "inputs \<Rightarrow> (int \<times> string list) list \<Rightarrow> string list \<Rightarrow> valuation \<Rightarrow> bool" where
  "slot_usage inp ssm all_sections val =
     (\<forall>sec \<in> set all_sections. \<forall>d \<in> set (DAYS inp).
        (\<forall>t \<in> set (THEORY_TIMESLOTS inp). \<not> blackout d t \<longrightarrow>
           is_bool (hn_theory val (sec, d, t))
           \<and> hn_theory val (sec, d, t)
               = sum_list [asg val (sec, c_code c, d, t, r).
                             c \<leftarrow> courses_of_kind inp False, r \<leftarrow> theory_rooms inp,
                             has_var inp ssm (sec, c_code c, d, t, r)]
           \<and> (if cohort_on inp then
                 in_range 0 1 (hc_theory val (sec, d, t))
                 \<and> hc_theory val (sec, d, t)
                     = sum_list [cohort_asg val (sec, c_code c, cohort_section e).
                                   sem \<leftarrow> selected_semesters inp, c \<leftarrow> cohort_courses inp sem,
                                   \<not> c_is_lab c, e \<leftarrow> csections inp sem (c_code c),
                                   (d, t) \<in> set (day_time_list e),
                                   has_cvar inp ssm (sec, c_code c, cohort_section e)]
                 \<and> in_range 0 2 (h_theory val (sec, d, t))
                 \<and> h_theory val (sec, d, t) = hn_theory val (sec, d, t) + hc_theory val (sec, d, t)
               else is_bool (h_theory val (sec, d, t))
                 \<and> h_theory val (sec, d, t) = hn_theory val (sec, d, t)))
      \<and> (\<forall>ls \<in> set (LAB_SLOTS inp).
           is_bool (hn_lab val (sec, d, ls))
           \<and> hn_lab val (sec, d, ls)
               = sum_list [asg val (sec, c_code c, d, ls, labr).
                             c \<leftarrow> courses_of_kind inp True, labr \<leftarrow> combined_labs inp,
                             has_var inp ssm (sec, c_code c, d, ls, labr)]
           \<and> (if cohort_on inp then
                 in_range 0 1 (hc_lab val (sec, d, ls))
                 \<and> hc_lab val (sec, d, ls)
                     = sum_list [cohort_asg val (sec, c_code c, cohort_section e).
                                   sem \<leftarrow> selected_semesters inp, c \<leftarrow> cohort_courses inp sem,
                                   c_is_lab c, e \<leftarrow> csections inp sem (c_code c),
                                   (d, ls) \<in> set (day_time_list e),
                                   has_cvar inp ssm (sec, c_code c, cohort_section e)]
                 \<and> in_range 0 2 (h_lab val (sec, d, ls))
                 \<and> h_lab val (sec, d, ls) = hn_lab val (sec, d, ls) + hc_lab val (sec, d, ls)
               else is_bool (h_lab val (sec, d, ls))
                 \<and> h_lab val (sec, d, ls) = hn_lab val (sec, d, ls))))"

text \<open>
  \<open>table[slot]\<close> on the slot clock raises for an index outside the table; then no model is
  built and no schedule returned, so the constraint that needs the entry is unsatisfiable.
\<close>

definition gap_at_least :: "(int \<times> int) list \<Rightarrow> int \<Rightarrow> (int \<times> int) list \<Rightarrow> int \<Rightarrow> int \<Rightarrow> bool \<Rightarrow> bool" where
  "gap_at_least starts later ends earlier min_gap both_used_at_most_once =
     (case (map_of starts later, map_of ends earlier) of
        (Some s, Some e) \<Rightarrow> (s - e < min_gap \<longrightarrow> both_used_at_most_once)
      | _ \<Rightarrow> False)"

definition gap_constraints :: "inputs \<Rightarrow> string list \<Rightarrow> valuation \<Rightarrow> bool" where
  "gap_constraints inp all_sections val =
     (min_gap_minutes inp > 0 \<longrightarrow>
      (\<forall>sec \<in> set all_sections. \<forall>d \<in> set (DAYS inp).
         (\<forall>(t1, t2) \<in> set (ordered_pairs (THEORY_TIMESLOTS inp)).
            \<not> blackout d t1 \<longrightarrow> \<not> blackout d t2 \<longrightarrow>
            gap_at_least theory_start_times t2 theory_end_times t1 (min_gap_minutes inp)
              (h_theory val (sec, d, t1) + h_theory val (sec, d, t2) \<le> 1))
       \<and> (\<forall>(ls1, ls2) \<in> set (ordered_pairs (LAB_SLOTS inp)).
            gap_at_least lab_start_times ls2 lab_end_times ls1 (min_gap_minutes inp)
              (h_lab val (sec, d, ls1) + h_lab val (sec, d, ls2) \<le> 1))
       \<and> (\<forall>t \<in> set (THEORY_TIMESLOTS inp). \<not> blackout d t \<longrightarrow>
            (\<forall>ls \<in> set (LAB_SLOTS inp).
               gap_at_least lab_start_times ls theory_end_times t (min_gap_minutes inp)
                 (h_theory val (sec, d, t) + h_lab val (sec, d, ls) \<le> 1)
               \<and> gap_at_least theory_start_times t lab_end_times ls (min_gap_minutes inp)
                 (h_theory val (sec, d, t) + h_lab val (sec, d, ls) \<le> 1)))))"

text \<open>
  \<open>OnlyEnforceIf(b)\<close> enforces the constraint when the literal \<open>b\<close> is 1, and
  \<open>OnlyEnforceIf(b.Not())\<close> when it is 0. \<open>AddMinEquality\<close> and \<open>AddMaxEquality\<close> need
  at least one operand.
\<close>

definition slot_clock ::
  "(int \<times> int) list \<Rightarrow> (int \<times> int) list \<Rightarrow> int \<Rightarrow> int \<Rightarrow> int \<Rightarrow> int \<Rightarrow> bool" where
  "slot_clock starts ends slot used start_var end_var =
     (case (map_of starts slot, map_of ends slot) of
        (Some s, Some e) \<Rightarrow>
          in_range 0 1440 start_var \<and> in_range 0 1440 end_var
          \<and> (used = 1 \<longrightarrow> start_var = s) \<and> (used = 0 \<longrightarrow> start_var = 1440)
          \<and> (used = 1 \<longrightarrow> end_var = e) \<and> (used = 0 \<longrightarrow> end_var = 0)
      | _ \<Rightarrow> False)"

definition min_list_int :: "int list \<Rightarrow> int" where
  "min_list_int xs = foldr min (tl xs) (hd xs)"

definition max_list_int :: "int list \<Rightarrow> int" where
  "max_list_int xs = foldr max (tl xs) (hd xs)"

definition span_constraints :: "inputs \<Rightarrow> string list \<Rightarrow> valuation \<Rightarrow> bool" where
  "span_constraints inp all_sections val =
     (\<forall>sec \<in> set all_sections. \<forall>d \<in> set (DAYS inp).
        (let ts = [t. t \<leftarrow> THEORY_TIMESLOTS inp, \<not> blackout d t];
             start_vars = map (\<lambda>t. th_start val (sec, d, t)) ts
                          @ map (\<lambda>ls. lb_start val (sec, d, ls)) (LAB_SLOTS inp);
             end_vars = map (\<lambda>t. th_end val (sec, d, t)) ts
                        @ map (\<lambda>ls. lb_end val (sec, d, ls)) (LAB_SLOTS inp)
         in (\<forall>t \<in> set ts. slot_clock theory_start_times theory_end_times t
                             (h_theory val (sec, d, t)) (th_start val (sec, d, t)) (th_end val (sec, d, t)))
          \<and> (\<forall>ls \<in> set (LAB_SLOTS inp). slot_clock lab_start_times lab_end_times ls
                             (h_lab val (sec, d, ls)) (lb_start val (sec, d, ls)) (lb_end val (sec, d, ls)))
          \<and> start_vars \<noteq> []
          \<and> in_range 0 1440 (v_min_start val (sec, d)) \<and> in_range 0 1440 (v_max_end val (sec, d))
          \<and> v_min_start val (sec, d) = min_list_int start_vars
          \<and> v_max_end val (sec, d) = max_list_int end_vars
          \<and> v_max_end val (sec, d) - v_min_start val (sec, d) \<le> max 0 (max_hours_per_day inp * 60)))"

subsection \<open>Step 13: what the solver may answer\<close>

text \<open>
  \<open>solver.Solve\<close> reports \<open>FEASIBLE\<close> or \<open>OPTIMAL\<close> only with a solution of the model, that
  is a valuation that satisfies every constraint added in steps 7 to 12.
\<close>

definition satisfies ::
  "inputs \<Rightarrow> (int \<times> string list) list \<Rightarrow> string list \<Rightarrow> valuation \<Rightarrow> bool" where
  "satisfies inp ssm all_sections val =
     (domain_constraints inp ssm all_sections val
      \<and> demand_constraints inp ssm val
      \<and> room_mutex inp ssm val
      \<and> section_mutex inp ssm all_sections val
      \<and> overlap_mutex inp ssm all_sections val
      \<and> cohort_constraints inp ssm val
      \<and> working_days inp ssm all_sections val
      \<and> cutoff_constraints inp ssm val
      \<and> slot_usage inp ssm all_sections val
      \<and> gap_constraints inp all_sections val
      \<and> span_constraints inp all_sections val)"

subsection \<open>Step 14: the schedule read off a solution\<close>

text \<open>
  One event per variable valued 1: \<open>(kind, room, day, slot, section, code, cohort section)\<close>.
  Each event writes \<open>schedule_map[(day, slot, room)]\<close> and appends to \<open>new_allocations\<close>.
\<close>

type_synonym event = "string \<times> string \<times> string \<times> int \<times> string \<times> string \<times> string option"
type_synonym schedule_map = "((string \<times> int \<times> string) \<times> (string \<times> string \<times> string option)) list"

definition course_events ::
  "inputs \<Rightarrow> (int \<times> string list) list \<Rightarrow> valuation \<Rightarrow> string \<Rightarrow> course \<Rightarrow> event list" where
  "course_events inp ssm val sec c =
     (if \<not> c_is_lab c then
        [(''theory'', r, d, t, sec, c_code c, None).
           (d, t, r) \<leftarrow> theory_placements inp ssm sec (c_code c),
           asg val (sec, c_code c, d, t, r) = 1]
      else
        [(''lab'', lbR, d, s, sec, c_code c, None).
           (d, s, lbR) \<leftarrow> lab_placements inp ssm sec (c_code c),
           asg val (sec, c_code c, d, s, lbR) = 1])"

definition chosen_data ::
  "inputs \<Rightarrow> (int \<times> string list) list \<Rightarrow> valuation \<Rightarrow> int \<Rightarrow> string \<Rightarrow> string \<Rightarrow> cohort_entry option" where
  "chosen_data inp ssm val sem sec code =
     (case [e. e \<leftarrow> csections inp sem code,
               has_cvar inp ssm (sec, code, cohort_section e)
               \<and> cohort_asg val (sec, code, cohort_section e) = 1] of
        [] \<Rightarrow> None
      | e # _ \<Rightarrow> Some e)"

definition actual_room :: "string \<Rightarrow> cohort_entry \<Rightarrow> string" where
  "actual_room code e =
     (case cohort_room e of
        Some r \<Rightarrow> r
      | None \<Rightarrow> ''CohortRoom('' @ code @ ''-'' @ cohort_section e @ '')'')"

definition chosen_events ::
  "inputs \<Rightarrow> (int \<times> string list) list \<Rightarrow> valuation \<Rightarrow> int \<Rightarrow> string \<Rightarrow> string \<Rightarrow> event list" where
  "chosen_events inp ssm val sem sec code =
     (case chosen_data inp ssm val sem sec code of
        None \<Rightarrow> []
      | Some e \<Rightarrow>
          [(''cohort'', actual_room code e, the_day, the_slot, sec, code, Some (cohort_section e)).
             (the_day, the_slot) \<leftarrow> day_time_list e, \<not> blackout the_day the_slot])"

definition cohort_events :: "inputs \<Rightarrow> (int \<times> string list) list \<Rightarrow> valuation \<Rightarrow> event list" where
  "cohort_events inp ssm val =
     (if cohort_on inp then
        concat [chosen_events inp ssm val sem sec (c_code c).
                sem \<leftarrow> selected_semesters inp, c \<leftarrow> cohort_courses inp sem, sec \<leftarrow> dget ssm sem]
      else [])"

definition events :: "inputs \<Rightarrow> (int \<times> string list) list \<Rightarrow> valuation \<Rightarrow> event list" where
  "events inp ssm val =
     concat (map (\<lambda>(sec, c). course_events inp ssm val sec c) (normal_pairs inp ssm))
     @ cohort_events inp ssm val"

fun write_event :: "schedule_map \<Rightarrow> event \<Rightarrow> schedule_map" where
  "write_event m (kind, room, day, slot, sec, code, csec) = AList.update (day, slot, room) (sec, code, csec) m"

fun allocation_of :: "event \<Rightarrow> allocation" where
  "allocation_of (kind, room, day, slot, sec, code, csec) = (kind, room, day, slot, sec @ ''-'' @ code)"



fun event_day :: "event \<Rightarrow> string" where
  "event_day (kind, room, day, slot, sec, code, csec) = day"



definition build_schedule_map :: "event list \<Rightarrow> schedule_map" where
  "build_schedule_map evs = foldl write_event [] evs"

subsection \<open>The function\<close>

text \<open>
  \<open>schedule_timetable\<close> with the solver's answer as an argument: \<open>None\<close> when the status is
  neither \<open>FEASIBLE\<close> nor \<open>OPTIMAL\<close>, else the solution found. The result is an exception, or
  \<open>None\<close>, or \<open>(schedule_map, semester_sections_map2, new_allocations)\<close>.
\<close>

definition schedule_timetable ::
  "inputs \<Rightarrow> valuation option
     \<Rightarrow> py_error + (schedule_map \<times> (int \<times> string list) list \<times> allocation list) option" where
  "schedule_timetable inp answer =
     (case capacity_check inp of
        Inl e \<Rightarrow> Inl e
      | Inr _ \<Rightarrow>
     (case build_sections inp of
        Inl e \<Rightarrow> Inl e
      | Inr (ssm, all_sections) \<Rightarrow>
     (case answer of
        None \<Rightarrow> Inr None
      | Some val \<Rightarrow>
          Inr (Some (build_schedule_map (events inp ssm val), ssm,
                     map allocation_of (events inp ssm val))))))"

text \<open>The solver's contract: an answer is a solution of the model built for these inputs.\<close>

definition solver_answer :: "inputs \<Rightarrow> valuation option \<Rightarrow> bool" where
  "solver_answer inp answer =
     (case answer of
        None \<Rightarrow> True
      | Some val \<Rightarrow>
          (case build_sections inp of
             Inl e \<Rightarrow> False
           | Inr (ssm, all_sections) \<Rightarrow> satisfies inp ssm all_sections val))"

section \<open>Elective solver (scheduling/electives_solver.py)\<close>


























subsection \<open>Two instances\<close>




section \<open>Teacher assigner (backend/scheduler/services/teacher_assigner.py)\<close>





















subsection \<open>An instance\<close>


section \<open>The ledger as objects in a store (optimization_utils.py, solver_optimized.py)\<close>

text \<open>
  To see what a call mutates, dicts and lists are objects at addresses. A dict maps string
  keys to the addresses of its values, a slot list holds its ints. The store is the list of
  all objects, an address is an index into it, and an object is created at the end. Two
  dicts may hold the same address: that is aliasing, as after \<open>usage_data.copy()\<close>.
\<close>

datatype obj = Dict "(string \<times> nat) list" | IntList "int list"

type_synonym heap = "obj list"

text \<open>A statement runs on the store and leaves a store with a value or an exception.\<close>

type_synonym 'a act = "heap \<Rightarrow> heap \<times> (py_error + 'a)"

definition py_return :: "'a \<Rightarrow> 'a act" where
  "py_return x h = (h, Inr x)"

definition py_raise :: "py_error \<Rightarrow> 'a act" where
  "py_raise e h = (h, Inl e)"

definition py_bind :: "'a act \<Rightarrow> ('a \<Rightarrow> 'b act) \<Rightarrow> 'b act" where
  "py_bind m f h = (case m h of (h', Inl e) \<Rightarrow> (h', Inl e) | (h', Inr x) \<Rightarrow> f x h')"

text \<open>\<open>{}\<close> and \<open>[]\<close>.\<close>

definition new_dict :: "nat act" where
  "new_dict h = (h @ [Dict []], Inr (length h))"

definition new_list :: "nat act" where
  "new_list h = (h @ [IntList []], Inr (length h))"

text \<open>\<open>key in x\<close> for a string key: a list of ints has no string member.\<close>

definition py_contains :: "nat \<Rightarrow> string \<Rightarrow> bool act" where
  "py_contains x key h =
     (case h ! x of
        Dict items \<Rightarrow> (h, Inr (map_of items key \<noteq> None))
      | IntList xs \<Rightarrow> (h, Inr False))"

text \<open>\<open>x[key]\<close> for a string key.\<close>

definition py_getitem :: "nat \<Rightarrow> string \<Rightarrow> nat act" where
  "py_getitem x key h =
     (case h ! x of
        Dict items \<Rightarrow> (case map_of items key of None \<Rightarrow> (h, Inl KeyError) | Some v \<Rightarrow> (h, Inr v))
      | IntList xs \<Rightarrow> (h, Inl TypeError))"

text \<open>\<open>x[key] = v\<close> for a string key.\<close>

definition py_setitem :: "nat \<Rightarrow> string \<Rightarrow> nat \<Rightarrow> unit act" where
  "py_setitem x key v h =
     (case h ! x of
        Dict items \<Rightarrow> (h[x := Dict (AList.update key v items)], Inr ())
      | IntList xs \<Rightarrow> (h, Inl TypeError))"

text \<open>\<open>slot in x\<close> for an int: a dict with string keys has no int key.\<close>

definition py_contains_int :: "nat \<Rightarrow> int \<Rightarrow> bool act" where
  "py_contains_int x slot h =
     (case h ! x of
        IntList xs \<Rightarrow> (h, Inr (slot \<in> set xs))
      | Dict items \<Rightarrow> (h, Inr False))"

text \<open>\<open>x.append(slot)\<close>: a dict has no such attribute.\<close>

definition py_append :: "nat \<Rightarrow> int \<Rightarrow> unit act" where
  "py_append x slot h =
     (case h ! x of
        IntList xs \<Rightarrow> (h[x := IntList (xs @ [slot])], Inr ())
      | Dict items \<Rightarrow> (h, Inl AttributeError))"

text \<open>\<open>x.copy()\<close>: a new object with the same items.\<close>

definition py_copy :: "nat \<Rightarrow> nat act" where
  "py_copy x h = (h @ [h ! x], Inr (length h))"

text \<open>
  \<open>copy.deepcopy(x, memo)\<close>: an object met before is answered from the memo, so sharing
  and cycles are copied as they are; otherwise the copy is created empty, entered in the
  memo and filled with the copies of the values. Keys and ints are atomic. \<open>depth\<close> is the
  number of nested calls the interpreter still allows; beyond it \<open>RecursionError\<close> is raised.
\<close>

fun deepcopy :: "nat \<Rightarrow> (nat \<times> nat) list \<Rightarrow> nat \<Rightarrow> ((nat \<times> nat) list \<times> nat) act"
  and copy_items ::
    "nat \<Rightarrow> (nat \<times> nat) list \<Rightarrow> nat \<Rightarrow> (string \<times> nat) list \<Rightarrow> ((nat \<times> nat) list \<times> nat) act" where
  "deepcopy 0 memo x = py_raise RecursionError"
| "deepcopy (Suc depth) memo x =
     (case map_of memo x of
        Some y \<Rightarrow> py_return (memo, y)
      | None \<Rightarrow>
          (\<lambda>h. case h ! x of
             IntList xs \<Rightarrow> (h @ [IntList xs], Inr ((x, length h) # memo, length h))
           | Dict items \<Rightarrow> copy_items depth ((x, length h) # memo) (length h) items (h @ [Dict []])))"
| "copy_items depth memo y [] = py_return (memo, y)"
| "copy_items depth memo y ((key, v) # rest) =
     py_bind (deepcopy depth memo v) (\<lambda>(memo', v').
     py_bind (py_setitem y key v') (\<lambda>_.
     copy_items depth memo' y rest))"

text \<open>\<open>if kind not in usage: usage[kind] = {}\<close>.\<close>

definition ensure_kind_store :: "nat \<Rightarrow> string \<Rightarrow> unit act" where
  "ensure_kind_store usage kind =
     py_bind (py_contains usage kind) (\<lambda>present.
       if present then py_return ()
       else py_bind new_dict (\<lambda>d. py_setitem usage kind d))"

text \<open>
  The body of the loop over \<open>new_allocations\<close>, statement by statement; every
  \<open>usage[rtype]\<close>, \<open>usage[rtype][room]\<close> and \<open>usage[rtype][room][day]\<close> is read again where
  the source writes it again, and the right-hand side of an assignment comes first.
\<close>

definition room_of :: "nat \<Rightarrow> string \<Rightarrow> string \<Rightarrow> nat act" where
  "room_of usage rtype room = py_bind (py_getitem usage rtype) (\<lambda>rooms. py_getitem rooms room)"

definition day_of :: "nat \<Rightarrow> string \<Rightarrow> string \<Rightarrow> string \<Rightarrow> nat act" where
  "day_of usage rtype room day = py_bind (room_of usage rtype room) (\<lambda>days. py_getitem days day)"

fun merge_step_store :: "nat \<Rightarrow> allocation \<Rightarrow> unit act" where
  "merge_step_store usage (rtype, room, day, slot, label) =
     py_bind (py_bind (py_getitem usage rtype) (\<lambda>rooms. py_contains rooms room)) (\<lambda>has_room.
     py_bind (if has_room then py_return ()
              else py_bind new_dict (\<lambda>d.
                   py_bind (py_getitem usage rtype) (\<lambda>rooms. py_setitem rooms room d))) (\<lambda>_.
     py_bind (py_bind (room_of usage rtype room) (\<lambda>days. py_contains days day)) (\<lambda>has_day.
     py_bind (if has_day then py_return ()
              else py_bind new_list (\<lambda>l.
                   py_bind (room_of usage rtype room) (\<lambda>days. py_setitem days day l))) (\<lambda>_.
     py_bind (py_bind (day_of usage rtype room day) (\<lambda>slots. py_contains_int slots slot)) (\<lambda>has_slot.
     if has_slot then py_return ()
     else py_bind (day_of usage rtype room day) (\<lambda>slots. py_append slots slot))))))"

fun merge_loop_store :: "nat \<Rightarrow> allocation list \<Rightarrow> unit act" where
  "merge_loop_store usage [] = py_return ()"
| "merge_loop_store usage (a # as) =
     py_bind (merge_step_store usage a) (\<lambda>_. merge_loop_store usage as)"

text \<open>\<open>merge_usage_data\<close> on the store: the address of the returned ledger.\<close>

definition merge_usage_data_store :: "nat \<Rightarrow> nat \<Rightarrow> allocation list \<Rightarrow> nat act" where
  "merge_usage_data_store depth existing_usage new_allocations =
     py_bind (deepcopy depth [] existing_usage) (\<lambda>(memo, usage).
     py_bind (ensure_kind_store usage ''theory'') (\<lambda>_.
     py_bind (ensure_kind_store usage ''lab'') (\<lambda>_.
     py_bind (merge_loop_store usage new_allocations) (\<lambda>_.
     py_return usage))))"

text \<open>
  What \<open>schedule_hierarchical\<close> does with the ledger: \<open>current_usage = usage_data.copy()\<close>,
  then for every semester \<open>current_usage = merge_usage_data(current_usage, new_allocations)\<close>
  with the allocations the solver returned for it, which reads the ledger only.
\<close>

fun usage_loop :: "nat \<Rightarrow> nat \<Rightarrow> allocation list list \<Rightarrow> nat act" where
  "usage_loop depth current_usage [] = py_return current_usage"
| "usage_loop depth current_usage (new_allocations # rest) =
     py_bind (merge_usage_data_store depth current_usage new_allocations) (\<lambda>current_usage'.
     usage_loop depth current_usage' rest)"

definition hierarchical_usage :: "nat \<Rightarrow> nat \<Rightarrow> allocation list list \<Rightarrow> nat act" where
  "hierarchical_usage depth caller_usage results =
     py_bind (py_copy caller_usage) (\<lambda>current_usage. usage_loop depth current_usage results)"

text \<open>The ledger an address stands for, read through the three levels of dicts.\<close>

definition read_slots :: "heap \<Rightarrow> nat \<Rightarrow> int list" where
  "read_slots h x = (case h ! x of IntList xs \<Rightarrow> xs | Dict items \<Rightarrow> [])"

definition read_days :: "heap \<Rightarrow> nat \<Rightarrow> day_dict" where
  "read_days h x =
     (case h ! x of Dict items \<Rightarrow> map (\<lambda>(day, v). (day, read_slots h v)) items | IntList xs \<Rightarrow> [])"

definition read_rooms :: "heap \<Rightarrow> nat \<Rightarrow> room_dict" where
  "read_rooms h x =
     (case h ! x of Dict items \<Rightarrow> map (\<lambda>(room, v). (room, read_days h v)) items | IntList xs \<Rightarrow> [])"

definition read_usage :: "heap \<Rightarrow> nat \<Rightarrow> usage" where
  "read_usage h x =
     (case h ! x of Dict items \<Rightarrow> map (\<lambda>(kind, v). (kind, read_rooms h v)) items | IntList xs \<Rightarrow> [])"

text \<open>
  The objects created since the store had \<open>n\<close> objects refer to such objects only. A
  statement keeps this, and the first \<open>n\<close> objects as they are, when the addresses \<open>A\<close> it
  works on are allocated; the addresses \<open>F x\<close> of its value \<open>x\<close> are then among the new ones.
\<close>

definition fresh_closed :: "nat \<Rightarrow> heap \<Rightarrow> bool" where
  "fresh_closed n h \<longleftrightarrow>
     (\<forall>a items key v. n \<le> a \<and> a < length h \<and> h ! a = Dict items \<and> (key, v) \<in> set items
        \<longrightarrow> n \<le> v \<and> v < length h)"

definition good :: "nat \<Rightarrow> heap \<Rightarrow> bool" where
  "good n h \<longleftrightarrow> n \<le> length h \<and> fresh_closed n h"

definition keeps :: "nat \<Rightarrow> nat set \<Rightarrow> 'a act \<Rightarrow> ('a \<Rightarrow> nat set) \<Rightarrow> bool" where
  "keeps n A m F \<longleftrightarrow>
     (\<forall>h. good n h \<and> (\<forall>a \<in> A. a < length h) \<longrightarrow>
        (case m h of (h', r) \<Rightarrow>
           good n h' \<and> take n h' = take n h \<and> length h \<le> length h'
           \<and> (\<forall>x. r = Inr x \<longrightarrow> (\<forall>a \<in> F x. n \<le> a \<and> a < length h'))))"

definition memo_addrs :: "(nat \<times> nat) list \<times> nat \<Rightarrow> nat set" where
  "memo_addrs = (\<lambda>(memo, y). insert y (snd ` set memo))"

subsection \<open>An instance\<close>

text \<open>
  The caller's ledger at address 0: room R1 is taken on Monday at theory slot 0 and room
  L1 has an empty lab entry; the two allocations of a semester.
\<close>

definition demo_heap :: heap where
  "demo_heap =
     [Dict [(''theory'', 1), (''lab'', 2)],
      Dict [(''R1'', 3)],
      Dict [(''L1'', 5)],
      Dict [(''Monday'', 4)],
      IntList [0],
      Dict []]"

definition demo_allocations :: "allocation list" where
  "demo_allocations =
     [(''theory'', ''R1'', ''Monday'', 1, ''S1A1-C1''),
      (''lab'', ''L1'', ''Tuesday'', 0, ''S1A1-L1'')]"

subsection \<open>A small instance\<close>

text \<open>
  One semester of 50 students (one section), one theory course twice a week, one theory
  room and one lab room, three days, two theory slots and one lab slot.
\<close>

definition demo_inputs :: inputs where
  "demo_inputs =
     \<lparr> selected_semesters = [1],
       semester_courses_map = [(1, [Course ''T1'' ''Theory one'' False 2 3])],
       section_sizes = [(1, 50)],
       usage_data = [(''theory'', []), (''lab'', [])],
       DAYS = [''Monday'', ''Tuesday'', ''Wednesday''],
       THEORY_TIMESLOTS = [0, 1],
       LAB_SLOTS = [0],
       LAB_OVERLAP_MAP = [(0, [0, 1])],
       theory_rooms = [''R1''],
       lab_rooms = [''L1''],
       special_lab_rooms = [],
       section_size = 50,
       program_code = ''A'',
       cohort_map = None,
       enable_cohort = False,
       constraints = None \<rparr>"

text \<open>
  The valuation that sets the listed theory and lab assignment variables to 1, no cohort
  variable, and every auxiliary variable to the value the placements give it.
\<close>

definition uses_slot :: "akey list \<Rightarrow> string \<Rightarrow> string \<Rightarrow> int \<Rightarrow> bool" where
  "uses_slot ks sec d t = (\<exists>(s, c, d', t', r) \<in> set ks. s = sec \<and> d' = d \<and> t' = t)"

definition uses_day :: "akey list \<Rightarrow> string \<Rightarrow> string \<Rightarrow> bool" where
  "uses_day ks sec d = (\<exists>(s, c, d', t', r) \<in> set ks. s = sec \<and> d' = d)"

definition valuation_of :: "akey list \<Rightarrow> akey list \<Rightarrow> valuation" where
  "valuation_of th lb =
     \<lparr> asg = (\<lambda>k. if k \<in> set (th @ lb) then 1 else 0),
       day_asg = (\<lambda>(sec, code, d).
          if (\<exists>(s, c, d', t', r) \<in> set th. s = sec \<and> c = code \<and> d' = d) then 1 else 0),
       cohort_asg = (\<lambda>k. 0),
       day_use = (\<lambda>(sec, d). if uses_day (th @ lb) sec d then 1 else 0),
       hn_theory = (\<lambda>(sec, d, t). if uses_slot th sec d t then 1 else 0),
       hn_lab = (\<lambda>(sec, d, ls). if uses_slot lb sec d ls then 1 else 0),
       hc_theory = (\<lambda>k. 0),
       hc_lab = (\<lambda>k. 0),
       h_theory = (\<lambda>(sec, d, t). if uses_slot th sec d t then 1 else 0),
       h_lab = (\<lambda>(sec, d, ls). if uses_slot lb sec d ls then 1 else 0),
       th_start = (\<lambda>(sec, d, t). if uses_slot th sec d t then py_get theory_start_times t 0 else 1440),
       th_end = (\<lambda>(sec, d, t). if uses_slot th sec d t then py_get theory_end_times t 0 else 0),
       lb_start = (\<lambda>(sec, d, ls). if uses_slot lb sec d ls then py_get lab_start_times ls 0 else 1440),
       lb_end = (\<lambda>(sec, d, ls). if uses_slot lb sec d ls then py_get lab_end_times ls 0 else 0),
       v_min_start = (\<lambda>(sec, d).
          foldr min ([py_get theory_start_times t 0. (s, c, d', t, r) \<leftarrow> th, s = sec \<and> d' = d]
                     @ [py_get lab_start_times ls 0. (s, c, d', ls, r) \<leftarrow> lb, s = sec \<and> d' = d]) 1440),
       v_max_end = (\<lambda>(sec, d).
          foldr max ([py_get theory_end_times t 0. (s, c, d', t, r) \<leftarrow> th, s = sec \<and> d' = d]
                     @ [py_get lab_end_times ls 0. (s, c, d', ls, r) \<leftarrow> lb, s = sec \<and> d' = d]) 0) \<rparr>"

text \<open>A solution for the small instance: the course on Monday and on Wednesday, first slot,
  room \<open>R1\<close>.\<close>

definition demo_valuation :: valuation where
  "demo_valuation =
     valuation_of [(''S1A1'', ''T1'', ''Monday'', 0, ''R1''), (''S1A1'', ''T1'', ''Wednesday'', 0, ''R1'')] []"



text \<open>
  An instance with a cutoff: one section, one lab course once a week, one lab room, the
  six days and the slot indices of the application, no classes after 10 o'clock.
\<close>

definition cutoff_inputs :: inputs where
  "cutoff_inputs =
     \<lparr> selected_semesters = [1],
       semester_courses_map = [(1, [Course ''L1'' ''Lab one'' True 1 1])],
       section_sizes = [(1, 50)],
       usage_data = [(''theory'', []), (''lab'', [])],
       DAYS = [''Monday'', ''Tuesday'', ''Wednesday'', ''Thursday'', ''Friday'', ''Saturday''],
       THEORY_TIMESLOTS = [0, 1, 2, 3, 4, 5, 6],
       LAB_SLOTS = [0, 1, 2, 3],
       LAB_OVERLAP_MAP = [(0, [0, 1]), (1, [2, 3]), (2, [4, 5]), (3, [6])],
       theory_rooms = [''R1''],
       lab_rooms = [''L1''],
       special_lab_rooms = [],
       section_size = 50,
       program_code = ''A'',
       cohort_map = None,
       enable_cohort = False,
       constraints = Some \<lparr> maxHoursPerDay = None, workingDaysPerWeek = None,
                             minGapMinutes = None, noClassesAfterHour = Some 10 \<rparr> \<rparr>"

definition cutoff_valuation :: valuation where
  "cutoff_valuation = valuation_of [] [(''S1A1'', ''L1'', ''Monday'', 0, ''L1'')]"



section \<open>Properties of the section builder\<close>

lemma py_ceil_div_is_ceiling:
  "b \<noteq> 0 \<Longrightarrow> py_ceil_div a b = Inr \<lceil>real_of_int a / real_of_int b\<rceil>"
  by (simp add: py_ceil_div_def ceiling_divide_eq_div)





text \<open>
  The backend's \<open>generate_sections_default\<close> computes the same count for every
  non-negative student count, and also creates no section for an empty semester.
\<close>

lemma generate_sections_count_agrees:
  assumes "0 < s" and "0 \<le> students"
  shows "generate_sections_count students s = py_ceil_div students s"
proof (cases "students = 0")
  case True
  with assms show ?thesis by (simp add: generate_sections_count_def py_ceil_div_def)
next
  case False
  with assms have "1 \<le> students" by simp
  then have "1 \<le> - ((- students) div s)"
    using assms(1)
    by (smt (verit) div_nonpos_pos_le0 neg_0_le_iff_le div_pos_neg_trivial zdiv_eq_0_iff zdiv_mono1 minus_div_mult_eq_mod)
  with False assms show ?thesis
    by (simp add: generate_sections_count_def py_ceil_div_def)
qed

section \<open>Properties of the usage ledger\<close>


lemma dget_Nil [simp]: "dget [] k = []"
  by (simp add: dget_def)




lemma keys_merge_step:
  assumes "merge_step u a = Inr u'" and "map_of u k \<noteq> None"
  shows "map_of u' k \<noteq> None"
  using assms
  by (cases a) (auto simp: update_conv' Let_def split: option.splits if_splits)








lemma ensure_kind_present: "map_of (ensure_kind k0 u) k0 \<noteq> None"
  by (auto simp: ensure_kind_def update_conv' split: option.splits)

lemma ensure_kind_keeps: "map_of u k \<noteq> None \<Longrightarrow> map_of (ensure_kind k0 u) k \<noteq> None"
  by (auto simp: ensure_kind_def update_conv' split: option.splits)





text \<open>
  The merge returns a ledger whenever every allocation names a kind that the ledger has
  after \<open>theory\<close> and \<open>lab\<close> were ensured; an allocation of another kind (the solver emits
  \<open>cohort\<close>) raises \<open>KeyError\<close>.
\<close>

lemma merge_loop_returns:
  "(\<And>k r d s l. (k, r, d, s, l) \<in> set as \<Longrightarrow> map_of u k \<noteq> None) \<Longrightarrow> \<exists>u'. merge_loop u as = Inr u'"
proof (induction as arbitrary: u)
  case Nil
  then show ?case by simp
next
  case (Cons a as)
  obtain k0 r0 d0 s0 l0 where a: "a = (k0, r0, d0, s0, l0)" by (cases a) auto
  have "map_of u k0 \<noteq> None" using Cons.prems[of k0 r0 d0 s0 l0] a by simp
  then obtain u1 where u1: "merge_step u a = Inr u1"
    unfolding a by (cases "map_of u k0") (auto simp: Let_def)
  have "\<exists>u'. merge_loop u1 as = Inr u'"
  proof (rule Cons.IH)
    fix k r d s l
    assume "(k, r, d, s, l) \<in> set as"
    then have "map_of u k \<noteq> None" using Cons.prems[of k r d s l] by simp
    then show "map_of u1 k \<noteq> None" using keys_merge_step[OF u1] by blast
  qed
  with u1 show ?case by simp
qed

lemma merge_usage_data_returns:
  assumes "\<And>k r d s l. (k, r, d, s, l) \<in> set new_allocations \<Longrightarrow> k = ''theory'' \<or> k = ''lab''"
  shows "\<exists>u. merge_usage_data existing_usage new_allocations = Inr u"
  unfolding merge_usage_data_def
proof (rule merge_loop_returns)
  fix k r d s l
  assume "(k, r, d, s, l) \<in> set new_allocations"
  then have "k = ''theory'' \<or> k = ''lab''" using assms by blast
  then show "map_of (ensure_kind ''lab'' (ensure_kind ''theory'' existing_usage)) k \<noteq> None"
    using ensure_kind_present ensure_kind_keeps by blast
qed

lemma merge_usage_data_cohort_raises:
  "merge_usage_data [] [(''cohort'', ''R1'', ''Monday'', 0, ''S1A1-X'')] = Inl KeyError"
  by (simp add: merge_usage_data_def ensure_kind_def)

section \<open>Properties of the capacity pre-check\<close>

lemma foldl_needed_course:
  "foldl needed_course (a, b) cs =
     (a + (\<Sum>c \<leftarrow> cs. if c_is_lab c = False then c_times_needed c else 0),
      b + (\<Sum>c \<leftarrow> cs. if c_is_lab c = True then c_times_needed c else 0))"
  by (induction cs arbitrary: a b) auto

lemma needed_loop_total:
  assumes "\<forall>sem \<in> set sems. map_of (semester_courses_map inp) sem \<noteq> None"
  shows "needed_loop inp (a, b) sems =
     Inr (a + (\<Sum>sem \<leftarrow> sems. \<Sum>c \<leftarrow> courses_of inp sem. if c_is_lab c = False then c_times_needed c else 0),
          b + (\<Sum>sem \<leftarrow> sems. \<Sum>c \<leftarrow> courses_of inp sem. if c_is_lab c = True then c_times_needed c else 0))"
  using assms
proof (induction sems arbitrary: a b)
  case Nil
  then show ?case by simp
next
  case (Cons sem sems)
  then obtain cs where cs: "map_of (semester_courses_map inp) sem = Some cs" by auto
  then have co: "courses_of inp sem = cs" by (simp add: courses_of_def dget_def)
  have rest: "\<forall>sem \<in> set sems. map_of (semester_courses_map inp) sem \<noteq> None"
    using Cons.prems by simp
  show ?case
    by (simp add: py_index_def cs co foldl_needed_course Cons.IH[OF rest] add.assoc)
qed

lemma capacity_check_eq:
  assumes th: "map_of (usage_data inp) ''theory'' = Some th"
    and lb: "map_of (usage_data inp) ''lab'' = Some lb"
    and sems: "\<forall>sem \<in> set (selected_semesters inp). map_of (semester_courses_map inp) sem \<noteq> None"
  shows "capacity_check inp =
     (if need_of inp False > total_theory_capacity inp - used_entries th
      then Inl (NotEnoughTheory (need_of inp False) (total_theory_capacity inp - used_entries th))
      else if need_of inp True > total_lab_capacity inp - used_entries lb
      then Inl (NotEnoughLab (need_of inp True) (total_lab_capacity inp - used_entries lb))
      else Inr ())"
  by (simp add: capacity_check_def py_index_def th lb needed_loop_total[OF sems] need_of_def Let_def)

lemma build_sections_for_semester_errors:
  "build_sections_for_semester sem n s pc = Inl e \<Longrightarrow> e = ZeroDivisionError"
  by (auto simp: build_sections_for_semester_def py_ceil_div_def split: if_splits)

lemma sections_loop_errors:
  "sections_loop inp acc sems = Inl e \<Longrightarrow> e = KeyError \<or> e = ZeroDivisionError"
proof (induction sems arbitrary: acc)
  case Nil
  then show ?case by simp
next
  case (Cons sem sems)
  obtain ssm all_secs where acc: "acc = (ssm, all_secs)" by (cases acc)
  show ?case
    using Cons.prems Cons.IH build_sections_for_semester_errors
    unfolding acc
    by (fastforce simp: py_index_def split: option.splits sum.splits)
qed

lemma build_sections_errors:
  "build_sections inp = Inl e \<Longrightarrow> e = KeyError \<or> e = ZeroDivisionError"
  unfolding build_sections_def by (rule sections_loop_errors)

text \<open>
  Claim C4: with a ledger that has both kinds and a course list for every selected
  semester, \<open>schedule_timetable\<close> raises one of the two capacity errors, whatever the solver
  would answer (the check precedes model and solver), exactly when the needed theory
  slots exceed the theory capacity minus the used theory entries or the needed lab slots
  exceed the lab capacity minus the used lab entries; otherwise it raises neither.
\<close>

theorem capacity_error_exactly_when_short:
  assumes th: "map_of (usage_data inp) ''theory'' = Some th"
    and lb: "map_of (usage_data inp) ''lab'' = Some lb"
    and sems: "\<forall>sem \<in> set (selected_semesters inp). map_of (semester_courses_map inp) sem \<noteq> None"
  shows "(need_of inp False > total_theory_capacity inp - used_entries th
            \<or> need_of inp True > total_lab_capacity inp - used_entries lb
          \<longrightarrow> (\<exists>e. (\<forall>answer. schedule_timetable inp answer = Inl e)
                   \<and> (e = NotEnoughTheory (need_of inp False) (total_theory_capacity inp - used_entries th)
                      \<or> e = NotEnoughLab (need_of inp True) (total_lab_capacity inp - used_entries lb))))
       \<and> (\<not> (need_of inp False > total_theory_capacity inp - used_entries th
              \<or> need_of inp True > total_lab_capacity inp - used_entries lb)
          \<longrightarrow> (\<forall>answer need have. schedule_timetable inp answer \<noteq> Inl (NotEnoughTheory need have)
                                  \<and> schedule_timetable inp answer \<noteq> Inl (NotEnoughLab need have)))"
proof -
  note cc = capacity_check_eq[OF th lb sems]
  let ?short = "need_of inp False > total_theory_capacity inp - used_entries th
            \<or> need_of inp True > total_lab_capacity inp - used_entries lb"
  have a: "?short \<longrightarrow> (\<exists>e. (\<forall>answer. schedule_timetable inp answer = Inl e)
                   \<and> (e = NotEnoughTheory (need_of inp False) (total_theory_capacity inp - used_entries th)
                      \<or> e = NotEnoughLab (need_of inp True) (total_lab_capacity inp - used_entries lb)))"
    by (auto simp: schedule_timetable_def cc)
  have b: "\<not> ?short \<longrightarrow> (\<forall>answer need have. schedule_timetable inp answer \<noteq> Inl (NotEnoughTheory need have)
                                  \<and> schedule_timetable inp answer \<noteq> Inl (NotEnoughLab need have))"
  proof (intro impI allI)
    fix answer need "have"
    assume ns: "\<not> ?short"
    then have c: "capacity_check inp = Inr ()" by (simp add: cc)
    show "schedule_timetable inp answer \<noteq> Inl (NotEnoughTheory need have)
          \<and> schedule_timetable inp answer \<noteq> Inl (NotEnoughLab need have)"
      using build_sections_errors[of inp]
      by (auto simp: schedule_timetable_def c split: sum.splits option.splits)
  qed
  show ?thesis using a b by blast
qed

lemma one_section_build:
  assumes "selected_semesters inp = [1]" and "section_sizes inp = [(1, 50)]"
    and "section_size inp = 50" and "program_code inp = ''A''"
  shows "build_sections inp = Inr ([(1, [''S1A1''])], [''S1A1''])"
  using assms
  by (simp add: build_sections_def py_index_def build_sections_for_semester_def
      py_ceil_div_def section_name_def str_int_def str_nat.simps digit_char_def)

theorem capacity_error_exactly_when_short_witness:
  "map_of (usage_data demo_inputs) ''theory'' = Some []
   \<and> map_of (usage_data demo_inputs) ''lab'' = Some []
   \<and> selected_semesters demo_inputs = [1]
   \<and> map_of (semester_courses_map demo_inputs) 1 \<noteq> None
   \<and> \<not> (need_of demo_inputs False > total_theory_capacity demo_inputs - used_entries []
          \<or> need_of demo_inputs True > total_lab_capacity demo_inputs - used_entries [])
   \<and> schedule_timetable demo_inputs None = Inr None
   \<and> need_of (demo_inputs\<lparr>theory_rooms := []\<rparr>) False
         > total_theory_capacity (demo_inputs\<lparr>theory_rooms := []\<rparr>) - used_entries []
   \<and> schedule_timetable (demo_inputs\<lparr>theory_rooms := []\<rparr>) None = Inl (NotEnoughTheory 2 0)"
proof -
  have h1: "map_of (usage_data demo_inputs) ''theory'' = Some []"
    and h2: "map_of (usage_data demo_inputs) ''lab'' = Some []"
    and h3: "\<forall>sem \<in> set (selected_semesters demo_inputs). map_of (semester_courses_map demo_inputs) sem \<noteq> None"
    by (simp_all add: demo_inputs_def)
  have n1: "need_of demo_inputs False = 2" "need_of demo_inputs True = 0"
    by (simp_all add: need_of_def demo_inputs_def courses_of_def dget_def)
  have c1: "total_theory_capacity demo_inputs = 6" "total_lab_capacity demo_inputs = 3"
    by (simp_all add: total_theory_capacity_def total_lab_capacity_def demo_inputs_def combined_labs_def
        normal_labs_def all_special_labs_def py_strip_def py_isspace_def)
  have u: "used_entries [] = 0" by (simp add: used_entries_def)
  have cc: "capacity_check demo_inputs = Inr ()"
    by (simp add: capacity_check_eq[OF h1 h2 h3] n1 c1 u)
  have bs: "build_sections demo_inputs = Inr ([(1, [''S1A1''])], [''S1A1''])"
    by (rule one_section_build) (simp_all add: demo_inputs_def)
  have ok: "schedule_timetable demo_inputs None = Inr None"
    by (simp add: schedule_timetable_def cc bs)
  let ?short = "demo_inputs\<lparr>theory_rooms := []\<rparr>"
  have g1: "map_of (usage_data ?short) ''theory'' = Some []"
    and g2: "map_of (usage_data ?short) ''lab'' = Some []"
    and g3: "\<forall>sem \<in> set (selected_semesters ?short). map_of (semester_courses_map ?short) sem \<noteq> None"
    by (simp_all add: demo_inputs_def)
  have n2: "need_of ?short False = 2"
    by (simp add: need_of_def demo_inputs_def courses_of_def dget_def)
  have c2: "total_theory_capacity ?short = 0"
    by (simp add: total_theory_capacity_def)
  from capacity_error_exactly_when_short [OF g1 g2 g3]
  have "schedule_timetable ?short None = Inl (NotEnoughTheory 2 0)
        \<or> schedule_timetable ?short None
            = Inl (NotEnoughLab (need_of ?short True) (total_lab_capacity ?short - used_entries []))"
    unfolding n2 c2 u by auto
  moreover have "schedule_timetable ?short None
            \<noteq> Inl (NotEnoughLab (need_of ?short True) (total_lab_capacity ?short - used_entries []))"
    by (simp add: schedule_timetable_def capacity_check_eq[OF g1 g2 g3] n2 c2 u)
  ultimately have short: "schedule_timetable ?short None = Inl (NotEnoughTheory 2 0)" by blast
  have h4: "selected_semesters demo_inputs = [1]"
    and h5: "map_of (semester_courses_map demo_inputs) 1 \<noteq> None"
    by (simp_all add: demo_inputs_def)
  show ?thesis
    using h1 h2 h4 h5 ok short by (simp add: n1 n2 c1 c2 u)
qed

section \<open>Properties of the main solver\<close>

lemma bool_sum_count:
  "(\<And>x. x \<in> set xs \<Longrightarrow> is_bool (f x)) \<Longrightarrow>
   sum_list (map f xs) = int (length (filter (\<lambda>x. f x = 1) xs))"
  by (induction xs) (auto simp: is_bool_def)

lemma normal_pairs_iff:
  "(sec, c) \<in> set (normal_pairs inp ssm) \<longleftrightarrow>
     (\<exists>sem \<in> set (selected_semesters inp). sec \<in> set (dget ssm sem) \<and> c \<in> set (courses_of inp sem)
        \<and> \<not> is_cohort_course inp sem (c_code c))"
  by (auto simp: normal_pairs_def)

lemma theory_day_slots_has_var:
  "(t, r) \<in> set (theory_day_slots inp ssm sec code d) \<Longrightarrow> has_var inp ssm (sec, code, d, t, r)"
  by (auto simp: theory_day_slots_def)


lemma lab_day_slots_has_var:
  "(t, r) \<in> set (lab_day_slots inp ssm sec code d) \<Longrightarrow> has_var inp ssm (sec, code, d, t, r)"
  by (auto simp: lab_day_slots_def)

lemma theory_placements_has_var:
  "(d, t, r) \<in> set (theory_placements inp ssm sec code) \<Longrightarrow> has_var inp ssm (sec, code, d, t, r)"
  by (auto simp: theory_placements_def dest: theory_day_slots_has_var)

lemma lab_placements_has_var:
  "(d, t, r) \<in> set (lab_placements inp ssm sec code) \<Longrightarrow> has_var inp ssm (sec, code, d, t, r)"
  by (auto simp: lab_placements_def dest: lab_day_slots_has_var)

lemma var_bool:
  assumes "domain_constraints inp ssm all_sections val" and "has_var inp ssm k"
  shows "is_bool (asg val k)"
  using assms by (auto simp: domain_constraints_def has_var_def)

lemma concat_if_singleton:
  "concat (map (\<lambda>x. if P x then [g x] else []) xs) = map g (filter P xs)"
  by (induction xs) auto

lemma course_events_theory:
  assumes "\<not> c_is_lab c"
  shows "course_events inp ssm val sec c
     = map (\<lambda>(d, t, r). (''theory'', r, d, t, sec, c_code c, None))
         (filter (\<lambda>p. var_at val sec (c_code c) p = 1) (theory_placements inp ssm sec (c_code c)))"
proof -
  have "course_events inp ssm val sec c
     = concat (map (\<lambda>p. if var_at val sec (c_code c) p = 1
                          then [(\<lambda>(d, t, r). (''theory'', r, d, t, sec, c_code c, None)) p] else [])
                 (theory_placements inp ssm sec (c_code c)))"
    using assms unfolding course_events_def var_at_def
    by (auto intro!: arg_cong[where f=concat] split: prod.splits)
  then show ?thesis by (simp only: concat_if_singleton)
qed

lemma course_events_lab:
  assumes "c_is_lab c"
  shows "course_events inp ssm val sec c
     = map (\<lambda>(d, s, r). (''lab'', r, d, s, sec, c_code c, None))
         (filter (\<lambda>p. var_at val sec (c_code c) p = 1) (lab_placements inp ssm sec (c_code c)))"
proof -
  have "course_events inp ssm val sec c
     = concat (map (\<lambda>p. if var_at val sec (c_code c) p = 1
                          then [(\<lambda>(d, s, r). (''lab'', r, d, s, sec, c_code c, None)) p] else [])
                 (lab_placements inp ssm sec (c_code c)))"
    using assms unfolding course_events_def var_at_def
    by (auto intro!: arg_cong[where f=concat] split: prod.splits)
  then show ?thesis by (simp only: concat_if_singleton)
qed

lemma satisfies_parts:
  assumes "solver_answer inp (Some val)" and "build_sections inp = Inr (ssm, all_sections)"
  shows "satisfies inp ssm all_sections val"
  using assms by (simp add: solver_answer_def)

lemma events_count:
  assumes sat: "satisfies inp ssm all_sections val"
    and pair: "(sec, c) \<in> set (normal_pairs inp ssm)"
  shows "int (length (course_events inp ssm val sec c)) = c_times_needed c"
proof -
  from sat have dom: "domain_constraints inp ssm all_sections val"
    and dem: "demand_constraints inp ssm val"
    by (simp_all add: satisfies_def)
  show ?thesis
  proof (cases "c_is_lab c")
    case True
    with dem pair have "lab_demand inp ssm val sec c"
      by (auto simp: demand_constraints_def)
    then have s: "sum_list (map (var_at val sec (c_code c)) (lab_placements inp ssm sec (c_code c)))
        = c_times_needed c" by (simp add: lab_demand_def)
    have b: "\<And>p. p \<in> set (lab_placements inp ssm sec (c_code c)) \<Longrightarrow> is_bool (var_at val sec (c_code c) p)"
      using var_bool[OF dom] lab_placements_has_var by (auto simp: var_at_def)
    show ?thesis
      using s bool_sum_count[of "lab_placements inp ssm sec (c_code c)" "var_at val sec (c_code c)", OF b]
      by (simp add: course_events_lab[OF True])
  next
    case False
    with dem pair have "theory_demand inp ssm val sec c"
      by (auto simp: demand_constraints_def)
    then have s: "sum_list (map (var_at val sec (c_code c)) (theory_placements inp ssm sec (c_code c)))
        = c_times_needed c" by (simp add: theory_demand_def)
    have b: "\<And>p. p \<in> set (theory_placements inp ssm sec (c_code c)) \<Longrightarrow> is_bool (var_at val sec (c_code c) p)"
      using var_bool[OF dom] theory_placements_has_var by (auto simp: var_at_def)
    show ?thesis
      using s bool_sum_count[of "theory_placements inp ssm sec (c_code c)" "var_at val sec (c_code c)", OF b]
      by (simp add: course_events_theory[OF False])
  qed
qed


lemma sum_day_slots:
  "sum_list (map (var_at val sec code \<circ> Pair d) xs)
     = sum_list (map (\<lambda>(t, r). asg val (sec, code, d, t, r)) xs)"
  by (induction xs) (auto simp: var_at_def)

lemma sum_placements_by_day:
  "sum_list (map (var_at val sec code) (theory_placements inp ssm sec code))
     = sum_list (map (day_sum inp ssm val sec code) (DAYS inp))"
proof -
  have "\<And>ds. sum_list (map (var_at val sec code)
            (concat (map (\<lambda>d. map (Pair d) (theory_day_slots inp ssm sec code d)) ds)))
      = sum_list (map (day_sum inp ssm val sec code) ds)"
  proof -
    fix ds show "sum_list (map (var_at val sec code)
            (concat (map (\<lambda>d. map (Pair d) (theory_day_slots inp ssm sec code d)) ds)))
      = sum_list (map (day_sum inp ssm val sec code) ds)"
      by (induction ds) (simp_all add: sum_day_slots day_sum_def)
  qed
  then show ?thesis by (simp add: theory_placements_def)
qed

lemma sums_equal_pointwise:
  fixes S a :: "'a \<Rightarrow> int"
  assumes "sum_list (map S ds) = sum_list (map a ds)" and "\<And>d. d \<in> set ds \<Longrightarrow> a d \<le> S d"
  shows "\<forall>d \<in> set ds. S d = a d"
  using assms
proof (induction ds)
  case Nil
  then show ?case by simp
next
  case (Cons d ds)
  have le: "sum_list (map a ds) \<le> sum_list (map S ds)"
    by (rule sum_list_mono) (simp add: Cons.prems)
  have hd: "a d \<le> S d" by (simp add: Cons.prems)
  from Cons.prems(1) have eq: "S d + sum_list (map S ds) = a d + sum_list (map a ds)" by simp
  with le hd have "S d = a d" and "sum_list (map S ds) = sum_list (map a ds)" by linarith+
  with Cons.IH Cons.prems(2) show ?case by simp
qed

lemma bool_sum_two:
  assumes b: "\<And>x. x \<in> set xs \<Longrightarrow> is_bool (f x)"
    and "x \<in> set xs" "y \<in> set xs" "x \<noteq> y" "f x = 1" "f y = 1"
  shows "2 \<le> sum_list (map f xs)"
proof -
  let ?ys = "filter (\<lambda>x. f x = 1) xs"
  have "{x, y} \<subseteq> set ?ys" using assms by simp
  then have "card {x, y} \<le> card (set ?ys)" by (simp add: card_mono)
  also have "\<dots> \<le> length ?ys" by (rule card_length)
  finally have "2 \<le> length ?ys" using assms(4) by simp
  then show ?thesis using bool_sum_count[of xs f, OF b] by simp
qed

lemma bool_sum_one:
  assumes b: "\<And>x. x \<in> set xs \<Longrightarrow> is_bool (f x)"
    and "x \<in> set xs" "f x = 1"
  shows "1 \<le> sum_list (map f xs)"
proof -
  let ?ys = "filter (\<lambda>x. f x = 1) xs"
  have "x \<in> set ?ys" using assms by simp
  then have "0 < length ?ys" by (metis length_pos_if_in_set)
  then have "1 \<le> int (length ?ys)" by linarith
  then show ?thesis using bool_sum_count[of xs f, OF b] by (simp only:)
qed

lemma day_sum_eq_day_asg:
  assumes sat: "satisfies inp ssm all_sections val"
    and pair: "(sec, c) \<in> set (normal_pairs inp ssm)" and th: "\<not> c_is_lab c"
    and d: "d \<in> set (DAYS inp)"
  shows "day_sum inp ssm val sec (c_code c) d = day_asg val (sec, c_code c, d)"
    and "is_bool (day_asg val (sec, c_code c, d))"
proof -
  from sat have dom: "domain_constraints inp ssm all_sections val"
    and dem: "demand_constraints inp ssm val"
    by (simp_all add: satisfies_def)
  from dem pair th have td: "theory_demand inp ssm val sec c"
    by (auto simp: demand_constraints_def)
  have tot: "sum_list (map (day_sum inp ssm val sec (c_code c)) (DAYS inp))
      = sum_list (map (\<lambda>d. day_asg val (sec, c_code c, d)) (DAYS inp))"
    using td by (simp add: theory_demand_def sum_placements_by_day)
  have le: "\<And>d. d \<in> set (DAYS inp) \<Longrightarrow> day_asg val (sec, c_code c, d) \<le> day_sum inp ssm val sec (c_code c) d"
    using td by (simp add: theory_demand_def)
  from sums_equal_pointwise[OF tot le] d
  show "day_sum inp ssm val sec (c_code c) d = day_asg val (sec, c_code c, d)" by blast
  show "is_bool (day_asg val (sec, c_code c, d))"
    using dom pair th d by (auto simp: domain_constraints_def)
qed

lemma theory_event_cases:
  assumes th: "\<not> c_is_lab c" and e: "e \<in> set (course_events inp ssm val sec c)"
  obtains d t r where "e = (''theory'', r, d, t, sec, c_code c, None)"
    and "d \<in> set (DAYS inp)" and "(t, r) \<in> set (theory_day_slots inp ssm sec (c_code c) d)"
    and "asg val (sec, c_code c, d, t, r) = 1"
  using e unfolding course_events_theory[OF th]
  by (auto simp: theory_placements_def var_at_def)


lemma result_sections:
  assumes "schedule_timetable inp (Some val) = Inr (Some (sm, ssm, allocs))"
  obtains all_sections where "build_sections inp = Inr (ssm, all_sections)"
    and "sm = build_schedule_map (events inp ssm val)"
    and "allocs = map allocation_of (events inp ssm val)"
  using assms
  by (auto simp: schedule_timetable_def split: sum.splits prod.splits)

lemma day_slots_bool:
  assumes sat: "satisfies inp ssm all_sections val"
  shows "x \<in> set (theory_day_slots inp ssm sec code d)
     \<Longrightarrow> is_bool ((\<lambda>(t, r). asg val (sec, code, d, t, r)) x)"
proof -
  assume x: "x \<in> set (theory_day_slots inp ssm sec code d)"
  obtain t r where tr: "x = (t, r)" by (cases x)
  from sat have dom: "domain_constraints inp ssm all_sections val" by (simp add: satisfies_def)
  show ?thesis using var_bool[OF dom theory_day_slots_has_var] x tr by auto
qed

lemma theory_events_days:
  assumes sat: "satisfies inp ssm all_sections val"
    and pair: "(sec, c) \<in> set (normal_pairs inp ssm)" and th: "\<not> c_is_lab c"
    and e1: "e1 \<in> set (course_events inp ssm val sec c)"
    and e2: "e2 \<in> set (course_events inp ssm val sec c)"
  shows "(e1 \<noteq> e2 \<longrightarrow> event_day e1 \<noteq> event_day e2)
       \<and> (1 < c_times_needed c \<longrightarrow>
            (\<forall>i. Suc i < length (DAYS inp) \<longrightarrow>
                 \<not> (event_day e1 = DAYS inp ! i \<and> event_day e2 = DAYS inp ! Suc i)))"
proof -
  from theory_event_cases[OF th e1] obtain d1 t1 r1 where
    e1': "e1 = (''theory'', r1, d1, t1, sec, c_code c, None)" and d1: "d1 \<in> set (DAYS inp)"
    and s1: "(t1, r1) \<in> set (theory_day_slots inp ssm sec (c_code c) d1)"
    and v1: "asg val (sec, c_code c, d1, t1, r1) = 1" by blast
  from theory_event_cases[OF th e2] obtain d2 t2 r2 where
    e2': "e2 = (''theory'', r2, d2, t2, sec, c_code c, None)" and d2: "d2 \<in> set (DAYS inp)"
    and s2: "(t2, r2) \<in> set (theory_day_slots inp ssm sec (c_code c) d2)"
    and v2: "asg val (sec, c_code c, d2, t2, r2) = 1" by blast
  let ?f = "\<lambda>d. (\<lambda>(t, r). asg val (sec, c_code c, d, t, r))"
  have one1: "1 \<le> day_sum inp ssm val sec (c_code c) d1"
    unfolding day_sum_def
    by (rule bool_sum_one[where x="(t1, r1)"]) (use day_slots_bool[OF sat] s1 v1 in auto)
  have one2: "1 \<le> day_sum inp ssm val sec (c_code c) d2"
    unfolding day_sum_def
    by (rule bool_sum_one[where x="(t2, r2)"]) (use day_slots_bool[OF sat] s2 v2 in auto)
  note eq1 = day_sum_eq_day_asg[OF sat pair th d1]
  note eq2 = day_sum_eq_day_asg[OF sat pair th d2]
  have a1: "day_asg val (sec, c_code c, d1) = 1" using one1 eq1 by (auto simp: is_bool_def)
  have a2: "day_asg val (sec, c_code c, d2) = 1" using one2 eq2 by (auto simp: is_bool_def)
  have distinct_days: "e1 \<noteq> e2 \<longrightarrow> event_day e1 \<noteq> event_day e2"
  proof (intro impI notI)
    assume ne: "e1 \<noteq> e2" and "event_day e1 = event_day e2"
    then have dd: "d1 = d2" by (simp add: e1' e2')
    with ne have trne: "(t1, r1) \<noteq> (t2, r2)" by (auto simp: e1' e2')
    have "2 \<le> day_sum inp ssm val sec (c_code c) d1"
      unfolding day_sum_def
      by (rule bool_sum_two[where x="(t1, r1)" and y="(t2, r2)"])
         (use day_slots_bool[OF sat] s1 s2 v1 v2 dd trne in auto)
    with eq1 a1 show False by simp
  qed
  have nonadjacent: "1 < c_times_needed c \<longrightarrow>
            (\<forall>i. Suc i < length (DAYS inp) \<longrightarrow>
                 \<not> (event_day e1 = DAYS inp ! i \<and> event_day e2 = DAYS inp ! Suc i))"
  proof (intro impI allI notI)
    fix i
    assume n: "1 < c_times_needed c" and i: "Suc i < length (DAYS inp)"
      and adj: "event_day e1 = DAYS inp ! i \<and> event_day e2 = DAYS inp ! Suc i"
    from sat have dem: "demand_constraints inp ssm val" by (simp add: satisfies_def)
    from dem pair th have td: "theory_demand inp ssm val sec c"
      by (auto simp: demand_constraints_def)
    from i have "i \<in> set [0..<length (DAYS inp) - 1]" by auto
    with td n have "day_asg val (sec, c_code c, DAYS inp ! i)
                 + day_asg val (sec, c_code c, DAYS inp ! (i + 1)) \<le> 1"
      unfolding theory_demand_def by blast
    moreover have "DAYS inp ! i = d1" "DAYS inp ! (i + 1) = d2" using adj by (simp_all add: e1' e2')
    ultimately show False using a1 a2 by simp
  qed
  show ?thesis using distinct_days nonadjacent by blast
qed


text \<open>
  Claim C3: in every schedule returned by \<open>schedule_timetable\<close>, for every section of a
  selected semester and every non-cohort theory course of that semester with
  \<open>times_needed > 1\<close>, the placements emitted for the section and the course (they are part
  of the returned allocations) lie on pairwise distinct days, and no two of them on days
  that are adjacent in \<open>DAYS\<close>.
\<close>

theorem theory_course_days_distinct_nonadjacent:
  assumes ans: "solver_answer inp (Some val)"
    and res: "schedule_timetable inp (Some val) = Inr (Some (sm, ssm, allocs))"
    and sem: "sem \<in> set (selected_semesters inp)"
    and sec: "sec \<in> set (dget ssm sem)"
    and c: "c \<in> set (courses_of inp sem)"
    and nc: "\<not> is_cohort_course inp sem (c_code c)"
    and th: "\<not> c_is_lab c"
    and n: "1 < c_times_needed c"
    and e1: "e1 \<in> set (course_events inp ssm val sec c)"
    and e2: "e2 \<in> set (course_events inp ssm val sec c)"
  shows "allocation_of e1 \<in> set allocs \<and> allocation_of e2 \<in> set allocs
       \<and> (e1 \<noteq> e2 \<longrightarrow> event_day e1 \<noteq> event_day e2)
       \<and> (\<forall>i. Suc i < length (DAYS inp) \<longrightarrow>
              \<not> (event_day e1 = DAYS inp ! i \<and> event_day e2 = DAYS inp ! Suc i))"
proof -
  from result_sections[OF res] obtain all_sections where
    bs: "build_sections inp = Inr (ssm, all_sections)"
    and al: "allocs = map allocation_of (events inp ssm val)" by blast
  have sat: "satisfies inp ssm all_sections val" by (rule satisfies_parts[OF ans bs])
  have pair: "(sec, c) \<in> set (normal_pairs inp ssm)"
    using sem sec c nc by (auto simp: normal_pairs_iff)
  have sub: "set (course_events inp ssm val sec c) \<subseteq> set (events inp ssm val)"
    using pair by (auto simp: events_def)
  have in_allocs: "allocation_of e1 \<in> set allocs \<and> allocation_of e2 \<in> set allocs"
    using sub e1 e2 unfolding al by auto
  show ?thesis
    using theory_events_days[OF sat pair th e1 e2] n in_allocs by blast
qed

lemma demo_build: "build_sections demo_inputs = Inr ([(1, [''S1A1''])], [''S1A1''])"
  by (rule one_section_build) (simp_all add: demo_inputs_def)

lemma demo_satisfies: "satisfies demo_inputs [(1, [''S1A1''])] [''S1A1''] demo_valuation"
  by code_simp

lemma demo_answer: "solver_answer demo_inputs (Some demo_valuation)"
  by (simp add: solver_answer_def demo_build demo_satisfies)

lemma demo_events:
  "events demo_inputs [(1, [''S1A1''])] demo_valuation
     = [(''theory'', ''R1'', ''Monday'', 0, ''S1A1'', ''T1'', None),
        (''theory'', ''R1'', ''Wednesday'', 0, ''S1A1'', ''T1'', None)]"
  by code_simp

lemma demo_course_events:
  "course_events demo_inputs [(1, [''S1A1''])] demo_valuation ''S1A1'' (Course ''T1'' ''Theory one'' False 2 3)
     = [(''theory'', ''R1'', ''Monday'', 0, ''S1A1'', ''T1'', None),
        (''theory'', ''R1'', ''Wednesday'', 0, ''S1A1'', ''T1'', None)]"
  by code_simp

lemma demo_capacity: "capacity_check demo_inputs = Inr ()"
  by code_simp

lemma demo_result:
  "schedule_timetable demo_inputs (Some demo_valuation)
     = Inr (Some ([((''Monday'', 0, ''R1''), ''S1A1'', ''T1'', None),
                   ((''Wednesday'', 0, ''R1''), ''S1A1'', ''T1'', None)],
                  [(1, [''S1A1''])],
                  [(''theory'', ''R1'', ''Monday'', 0, ''S1A1-T1''),
                   (''theory'', ''R1'', ''Wednesday'', 0, ''S1A1-T1'')]))"
  by (simp add: schedule_timetable_def demo_capacity demo_build demo_events build_schedule_map_def)

theorem theory_course_days_distinct_nonadjacent_witness:
  "solver_answer demo_inputs (Some demo_valuation)
   \<and> schedule_timetable demo_inputs (Some demo_valuation)
       = Inr (Some ([((''Monday'', 0, ''R1''), ''S1A1'', ''T1'', None),
                     ((''Wednesday'', 0, ''R1''), ''S1A1'', ''T1'', None)],
                    [(1, [''S1A1''])],
                    [(''theory'', ''R1'', ''Monday'', 0, ''S1A1-T1''),
                     (''theory'', ''R1'', ''Wednesday'', 0, ''S1A1-T1'')]))
   \<and> (''theory'', ''R1'', ''Monday'', 0, ''S1A1'', ''T1'', None)
       \<in> set (course_events demo_inputs [(1, [''S1A1''])] demo_valuation ''S1A1''
                 (Course ''T1'' ''Theory one'' False 2 3))
   \<and> (''theory'', ''R1'', ''Wednesday'', 0, ''S1A1'', ''T1'', None)
       \<in> set (course_events demo_inputs [(1, [''S1A1''])] demo_valuation ''S1A1''
                 (Course ''T1'' ''Theory one'' False 2 3))
   \<and> event_day (''theory'', ''R1'', ''Monday'', 0, ''S1A1'', ''T1'', None)
       \<noteq> event_day (''theory'', ''R1'', ''Wednesday'', 0, ''S1A1'', ''T1'', None)
   \<and> \<not> (event_day (''theory'', ''R1'', ''Monday'', 0, ''S1A1'', ''T1'', None) = DAYS demo_inputs ! 0
          \<and> event_day (''theory'', ''R1'', ''Wednesday'', 0, ''S1A1'', ''T1'', None) = DAYS demo_inputs ! Suc 0)"
proof -
  let ?c = "Course ''T1'' ''Theory one'' False 2 3"
  let ?e1 = "(''theory'', ''R1'', ''Monday'', 0::int, ''S1A1'', ''T1'', None::string option)"
  let ?e2 = "(''theory'', ''R1'', ''Wednesday'', 0::int, ''S1A1'', ''T1'', None::string option)"
  have sem: "1 \<in> set (selected_semesters demo_inputs)" by (simp add: demo_inputs_def)
  have sec: "''S1A1'' \<in> set (dget [(1::int, [''S1A1''])] 1)" by (simp add: dget_def)
  have c: "?c \<in> set (courses_of demo_inputs 1)" by (simp add: courses_of_def demo_inputs_def dget_def)
  have nc: "\<not> is_cohort_course demo_inputs 1 (c_code ?c)"
    by (simp add: is_cohort_course_def cohort_on_def demo_inputs_def)
  have th: "\<not> c_is_lab ?c" and n: "1 < c_times_needed ?c" by simp_all
  have e1: "?e1 \<in> set (course_events demo_inputs [(1, [''S1A1''])] demo_valuation ''S1A1'' ?c)"
    and e2: "?e2 \<in> set (course_events demo_inputs [(1, [''S1A1''])] demo_valuation ''S1A1'' ?c)"
    by (simp_all add: demo_course_events)
  note t = theory_course_days_distinct_nonadjacent [OF demo_answer demo_result sem sec c nc th n e1 e2]
  have i: "Suc 0 < length (DAYS demo_inputs)" by (simp add: demo_inputs_def)
  from t i have "\<not> (event_day ?e1 = DAYS demo_inputs ! 0 \<and> event_day ?e2 = DAYS demo_inputs ! Suc 0)"
    by blast
  moreover from t have "event_day ?e1 \<noteq> event_day ?e2" by simp
  ultimately show ?thesis using demo_answer demo_result e1 e2 by blast
qed




















lemma cutoff_build: "build_sections cutoff_inputs = Inr ([(1, [''S1A1''])], [''S1A1''])"
  by (rule one_section_build) (simp_all add: cutoff_inputs_def)

lemma cutoff_satisfies: "satisfies cutoff_inputs [(1, [''S1A1''])] [''S1A1''] cutoff_valuation"
  by code_simp

lemma cutoff_result:
  "schedule_timetable cutoff_inputs (Some cutoff_valuation)
     = Inr (Some ([((''Monday'', 0, ''L1''), ''S1A1'', ''L1'', None)],
                  [(1, [''S1A1''])],
                  [(''lab'', ''L1'', ''Monday'', 0, ''S1A1-L1'')]))"
  by code_simp

text \<open>
  Claim C7 says that with \<open>noClassesAfterHour = h\<close> every decision variable of a slot that
  ends after \<open>h\<cdot>60\<close> is fixed to 0, so that no placement of a returned schedule ends later.
  The cutoff loop classifies a key by its slot index alone and tests the theory table
  first, so a lab variable whose index is also a theory index is judged by the end of the
  theory slot of that index. With \<open>h = 10\<close>, lab slot 0 ends at 630 > 600, the theory slot
  0 ends at 555, the variable stays free, and the schedule below, read off a solution of
  the model, places the lab there.
\<close>

theorem cutoff_keeps_late_lab:
  "no_classes_after_hour cutoff_inputs = Some 10
   \<and> solver_answer cutoff_inputs (Some cutoff_valuation)
   \<and> schedule_timetable cutoff_inputs (Some cutoff_valuation)
       = Inr (Some ([((''Monday'', 0, ''L1''), ''S1A1'', ''L1'', None)],
                    [(1, [''S1A1''])],
                    [(''lab'', ''L1'', ''Monday'', 0, ''S1A1-L1'')]))
   \<and> has_var cutoff_inputs [(1, [''S1A1''])] (''S1A1'', ''L1'', ''Monday'', 0, ''L1'')
   \<and> asg cutoff_valuation (''S1A1'', ''L1'', ''Monday'', 0, ''L1'') = 1
   \<and> map_of lab_end_times 0 = Some 630
   \<and> (630::int) > 10 * 60
   \<and> \<not> ends_after cutoff_inputs 0 (10 * 60)"
proof -
  have a: "solver_answer cutoff_inputs (Some cutoff_valuation)"
    by (simp add: solver_answer_def cutoff_build cutoff_satisfies)
  have h: "no_classes_after_hour cutoff_inputs = Some 10"
    by (simp add: no_classes_after_hour_def cutoff_inputs_def)
  have v: "has_var cutoff_inputs [(1, [''S1A1''])] (''S1A1'', ''L1'', ''Monday'', 0, ''L1'')"
    by code_simp
  have x: "asg cutoff_valuation (''S1A1'', ''L1'', ''Monday'', 0, ''L1'') = 1"
    by (simp add: cutoff_valuation_def valuation_of_def)
  have e: "\<not> ends_after cutoff_inputs 0 (10 * 60)"
    by (simp add: ends_after_def cutoff_inputs_def py_get_def theory_end_times_def)
  show ?thesis using a h v x e cutoff_result by (simp add: lab_end_times_def)
qed

text \<open>On that input every schedule the function can return holds a lab placement that ends
  after the cutoff: the demand constraint forces one, and every lab slot ends after 10:00.\<close>

lemma cutoff_every_schedule_late:
  assumes ans: "solver_answer cutoff_inputs (Some val)"
    and res: "schedule_timetable cutoff_inputs (Some val) = Inr (Some (sm, ssm, allocs))"
  shows "\<exists>(kind, room, day, slot, label) \<in> set allocs.
           kind = ''lab'' \<and> (\<exists>e. map_of lab_end_times slot = Some e \<and> e > 10 * 60)"
proof -
  let ?c = "Course ''L1'' ''Lab one'' True 1 1"
  from result_sections[OF res] obtain all_sections where
    bs: "build_sections cutoff_inputs = Inr (ssm, all_sections)"
    and al: "allocs = map allocation_of (events cutoff_inputs ssm val)" by blast
  from bs have ssm: "ssm = [(1, [''S1A1''])]" unfolding cutoff_build by auto
  have sat: "satisfies cutoff_inputs ssm all_sections val" by (rule satisfies_parts[OF ans bs])
  have pair: "(''S1A1'', ?c) \<in> set (normal_pairs cutoff_inputs ssm)"
    unfolding ssm by code_simp
  have "int (length (course_events cutoff_inputs ssm val ''S1A1'' ?c)) = c_times_needed ?c"
    by (rule events_count[OF sat pair])
  then obtain e where e: "e \<in> set (course_events cutoff_inputs ssm val ''S1A1'' ?c)"
    by (cases "course_events cutoff_inputs ssm val ''S1A1'' ?c") auto
  then obtain d s r where e': "e = (''lab'', r, d, s, ''S1A1'', ''L1'', None)"
    and p: "(d, s, r) \<in> set (lab_placements cutoff_inputs ssm ''S1A1'' ''L1'')"
    by (auto simp: course_events_lab)
  from p have "s \<in> set (LAB_SLOTS cutoff_inputs)"
    by (auto simp: lab_placements_def lab_day_slots_def)
  then have s: "s \<in> {0, 1, 2, 3}" by (simp add: cutoff_inputs_def)
  have late: "\<exists>x. map_of lab_end_times s = Some x \<and> x > 10 * 60"
    using s by (auto simp: lab_end_times_def)
  have "e \<in> set (events cutoff_inputs ssm val)"
    using e pair by (auto simp: events_def)
  then have "allocation_of e \<in> set allocs" unfolding al by simp
  then have m: "(''lab'', r, d, s, ''S1A1-L1'') \<in> set allocs" unfolding e' by simp
  show ?thesis
    by (rule bexI[OF _ m]) (use late in simp)
qed


text \<open>The theory branch of the same loop does what the claim says.\<close>

lemma cutoff_fixes_theory_slots:
  assumes sat: "satisfies inp ssm all_sections val"
    and h: "no_classes_after_hour inp = Some h"
    and k: "has_var inp ssm (sec, code, d, t, r)"
    and t: "t \<in> set (THEORY_TIMESLOTS inp)"
    and e: "map_of theory_end_times t = Some e" "e > h * 60"
  shows "asg val (sec, code, d, t, r) = 0"
proof -
  from sat have "cutoff_constraints inp ssm val" by (simp add: satisfies_def)
  with h k have "ends_after inp t (h * 60) \<longrightarrow> asg val (sec, code, d, t, r) = 0"
    by (auto simp: cutoff_constraints_def has_var_def)
  moreover have "ends_after inp t (h * 60)"
    using t e by (simp add: ends_after_def py_get_def)
  ultimately show ?thesis by blast
qed

section \<open>Properties of the elective solver\<close>























section \<open>The Friday blackout\<close>























section \<open>Teacher assignment: no double booking, no reassignment\<close>



















section \<open>The merge leaves the ledger it was given\<close>

text \<open>
  A statement of the merge works on objects created since the call began: it keeps the
  objects that were there before, and what it creates refers to new objects only.
\<close>

lemma keepsI:
  assumes "\<And>h h' r. good n h \<Longrightarrow> \<forall>a \<in> A. a < length h \<Longrightarrow> m h = (h', r) \<Longrightarrow>
     good n h' \<and> take n h' = take n h \<and> length h \<le> length h'
     \<and> (\<forall>x. r = Inr x \<longrightarrow> (\<forall>a \<in> F x. n \<le> a \<and> a < length h'))"
  shows "keeps n A m F"
  unfolding keeps_def
proof (intro allI impI)
  fix h assume g: "good n h \<and> (\<forall>a \<in> A. a < length h)"
  obtain h' r where e: "m h = (h', r)" by (cases "m h")
  from g have g1: "good n h" and g2: "\<forall>a \<in> A. a < length h" by simp_all
  from assms[OF g1 g2 e] e
  show "case m h of (h', r) \<Rightarrow>
          good n h' \<and> take n h' = take n h \<and> length h \<le> length h'
          \<and> (\<forall>x. r = Inr x \<longrightarrow> (\<forall>a \<in> F x. n \<le> a \<and> a < length h'))"
    by simp
qed

lemma keepsD:
  assumes k: "keeps n A m F" and g1: "good n h" and g2: "\<forall>a \<in> A. a < length h"
    and e: "m h = (h', r)"
  shows "good n h'" "take n h' = take n h" "length h \<le> length h'"
    "r = Inr x \<Longrightarrow> a \<in> F x \<Longrightarrow> n \<le> a \<and> a < length h'"
proof -
  from k have "good n h \<and> (\<forall>a \<in> A. a < length h) \<longrightarrow>
        (case m h of (h', r) \<Rightarrow>
           good n h' \<and> take n h' = take n h \<and> length h \<le> length h'
           \<and> (\<forall>x. r = Inr x \<longrightarrow> (\<forall>a \<in> F x. n \<le> a \<and> a < length h')))"
    unfolding keeps_def by (rule spec)
  with g1 g2 e have c: "good n h' \<and> take n h' = take n h \<and> length h \<le> length h'
           \<and> (\<forall>x. r = Inr x \<longrightarrow> (\<forall>a \<in> F x. n \<le> a \<and> a < length h'))"
    by simp
  from c show "good n h'" "take n h' = take n h" "length h \<le> length h'" by simp_all
  from c show "r = Inr x \<Longrightarrow> a \<in> F x \<Longrightarrow> n \<le> a \<and> a < length h'" by blast
qed

lemma keeps_return:
  assumes "\<forall>a \<in> F x. n \<le> a \<and> a \<in> A"
  shows "keeps n A (py_return x) F"
proof (rule keepsI)
  fix h h' r
  assume g: "good n h" and v: "\<forall>a \<in> A. a < length h" and e: "py_return x h = (h', r)"
  from e have h': "h' = h" and r: "r = Inr x" by (simp_all add: py_return_def)
  from assms v have "\<forall>a \<in> F x. n \<le> a \<and> a < length h" by blast
  with g show "good n h' \<and> take n h' = take n h \<and> length h \<le> length h'
     \<and> (\<forall>x. r = Inr x \<longrightarrow> (\<forall>a \<in> F x. n \<le> a \<and> a < length h'))"
    unfolding h' r by simp
qed

lemma keeps_raise: "keeps n A (py_raise e) F"
  by (rule keepsI) (simp add: py_raise_def)

lemma keeps_bind:
  assumes m: "keeps n A m F" and f: "\<And>x. \<forall>a \<in> F x. n \<le> a \<Longrightarrow> keeps n (A \<union> F x) (f x) G"
  shows "keeps n A (py_bind m f) G"
proof (rule keepsI)
  fix h h' r
  assume g: "good n h" and v: "\<forall>a \<in> A. a < length h" and e: "py_bind m f h = (h', r)"
  obtain h1 r1 where e1: "m h = (h1, r1)" by (cases "m h")
  note d = keepsD[OF m g v e1]
  show "good n h' \<and> take n h' = take n h \<and> length h \<le> length h'
     \<and> (\<forall>x. r = Inr x \<longrightarrow> (\<forall>a \<in> G x. n \<le> a \<and> a < length h'))"
  proof (cases r1)
    case (Inl err)
    with e e1 have "h' = h1" "r = Inl err" by (simp_all add: py_bind_def)
    with d(1-3) show ?thesis by simp
  next
    case (Inr x)
    with e e1 have e2: "f x h1 = (h', r)" by (simp add: py_bind_def)
    from d(4)[OF Inr] have fx: "\<forall>a \<in> F x. n \<le> a \<and> a < length h1" by blast
    then have "\<forall>a \<in> F x. n \<le> a" by blast
    note k = f[OF this]
    have v1: "\<forall>a \<in> A \<union> F x. a < length h1"
    proof
      fix a assume "a \<in> A \<union> F x"
      then show "a < length h1"
      proof
        assume "a \<in> A"
        with v have "a < length h" by blast
        with d(3) show ?thesis by simp
      next
        assume "a \<in> F x"
        with fx show ?thesis by blast
      qed
    qed
    note d2 = keepsD[OF k d(1) v1 e2]
    from d2(1) d2(2) d(2) d2(3) d(3)
    have "good n h' \<and> take n h' = take n h \<and> length h \<le> length h'" by simp
    moreover have "\<forall>y. r = Inr y \<longrightarrow> (\<forall>a \<in> G y. n \<le> a \<and> a < length h')"
      using d2(4) by blast
    ultimately show ?thesis by blast
  qed
qed

lemma keeps_more:
  assumes k: "keeps n A m F" and s: "A \<subseteq> B"
  shows "keeps n B m F"
proof (rule keepsI)
  fix h h' r
  assume g: "good n h" and v: "\<forall>a \<in> B. a < length h" and e: "m h = (h', r)"
  from v s have v': "\<forall>a \<in> A. a < length h" by blast
  note d = keepsD[OF k g v' e]
  from d(1-3) have "good n h' \<and> take n h' = take n h \<and> length h \<le> length h'" by simp
  moreover have "\<forall>y. r = Inr y \<longrightarrow> (\<forall>a \<in> F y. n \<le> a \<and> a < length h')"
    using d(4) by blast
  ultimately show "good n h' \<and> take n h' = take n h \<and> length h \<le> length h'
     \<and> (\<forall>x. r = Inr x \<longrightarrow> (\<forall>a \<in> F x. n \<le> a \<and> a < length h'))" by blast
qed

lemma keeps_less:
  assumes k: "keeps n A m F" and s: "\<And>x. G x \<subseteq> F x"
  shows "keeps n A m G"
proof (rule keepsI)
  fix h h' r
  assume g: "good n h" and v: "\<forall>a \<in> A. a < length h" and e: "m h = (h', r)"
  note d = keepsD[OF k g v e]
  from d(1-3) have "good n h' \<and> take n h' = take n h \<and> length h \<le> length h'" by simp
  moreover have "\<forall>y. r = Inr y \<longrightarrow> (\<forall>a \<in> G y. n \<le> a \<and> a < length h')"
    using d(4) s by blast
  ultimately show "good n h' \<and> take n h' = take n h \<and> length h \<le> length h'
     \<and> (\<forall>x. r = Inr x \<longrightarrow> (\<forall>a \<in> G x. n \<le> a \<and> a < length h'))" by blast
qed

lemma good_values:
  "good n h \<Longrightarrow> n \<le> a \<Longrightarrow> a < length h \<Longrightarrow> h ! a = Dict items \<Longrightarrow> (key, v) \<in> set items
     \<Longrightarrow> n \<le> v \<and> v < length h"
  unfolding good_def fresh_closed_def by blast

lemma good_length: "good n h \<Longrightarrow> n \<le> length h"
  by (simp add: good_def)

lemma good_append:
  assumes g: "good n h"
    and its: "\<And>items key v. c = Dict items \<Longrightarrow> (key, v) \<in> set items \<Longrightarrow> n \<le> v \<and> v < length h"
  shows "good n (h @ [c])"
proof -
  from g have l: "n \<le> length h" by (simp add: good_def)
  have "fresh_closed n (h @ [c])"
    unfolding fresh_closed_def
  proof (intro allI impI)
    fix a items key v
    assume a: "n \<le> a \<and> a < length (h @ [c]) \<and> (h @ [c]) ! a = Dict items \<and> (key, v) \<in> set items"
    then have a1: "n \<le> a" and a2: "a < length (h @ [c])" and a3: "(h @ [c]) ! a = Dict items"
      and a4: "(key, v) \<in> set items" by simp_all
    have "n \<le> v \<and> v < length h"
    proof (cases "a < length h")
      case True
      with a3 have "h ! a = Dict items" by (simp add: nth_append)
      from good_values[OF g a1 True this a4] show ?thesis .
    next
      case False
      with a2 have "a = length h" by simp
      with a3 have "c = Dict items" by simp
      from its[OF this a4] show ?thesis .
    qed
    then show "n \<le> v \<and> v < length (h @ [c])" by simp
  qed
  with l show ?thesis by (simp add: good_def)
qed

lemma good_update:
  assumes g: "good n h"
    and its: "\<And>items key v. c = Dict items \<Longrightarrow> (key, v) \<in> set items \<Longrightarrow> n \<le> v \<and> v < length h"
  shows "good n (h[x := c])"
proof -
  from g have l: "n \<le> length h" by (simp add: good_def)
  have "fresh_closed n (h[x := c])"
    unfolding fresh_closed_def
  proof (intro allI impI)
    fix a items key v
    assume a: "n \<le> a \<and> a < length (h[x := c]) \<and> h[x := c] ! a = Dict items \<and> (key, v) \<in> set items"
    then have a1: "n \<le> a" and a2: "a < length h" and a3: "h[x := c] ! a = Dict items"
      and a4: "(key, v) \<in> set items" by simp_all
    have "n \<le> v \<and> v < length h"
    proof (cases "a = x")
      case True
      with a2 a3 have "c = Dict items" by simp
      from its[OF this a4] show ?thesis .
    next
      case False
      with a3 have "h ! a = Dict items" by simp
      from good_values[OF g a1 a2 this a4] show ?thesis .
    qed
    then show "n \<le> v \<and> v < length (h[x := c])" by simp
  qed
  with l show ?thesis by (simp add: good_def)
qed

lemma update_entries: "(a, b) \<in> set (AList.update k v xs) \<Longrightarrow> (a, b) = (k, v) \<or> (a, b) \<in> set xs"
  by (induction xs) (auto split: if_splits)

lemma keeps_new_dict: "keeps n A new_dict (\<lambda>d. {d})"
proof (rule keepsI)
  fix h h' r
  assume g: "good n h" and v: "\<forall>a \<in> A. a < length h" and e: "new_dict h = (h', r)"
  from e have h': "h' = h @ [Dict []]" and r: "r = Inr (length h)" by (simp_all add: new_dict_def)
  have "good n (h @ [Dict []])" by (rule good_append[OF g]) simp
  with good_length[OF g]
  show "good n h' \<and> take n h' = take n h \<and> length h \<le> length h'
     \<and> (\<forall>x. r = Inr x \<longrightarrow> (\<forall>a \<in> {x}. n \<le> a \<and> a < length h'))"
    unfolding h' r by simp
qed

lemma keeps_new_list: "keeps n A new_list (\<lambda>d. {d})"
proof (rule keepsI)
  fix h h' r
  assume g: "good n h" and v: "\<forall>a \<in> A. a < length h" and e: "new_list h = (h', r)"
  from e have h': "h' = h @ [IntList []]" and r: "r = Inr (length h)" by (simp_all add: new_list_def)
  have "good n (h @ [IntList []])" by (rule good_append[OF g]) simp
  with good_length[OF g]
  show "good n h' \<and> take n h' = take n h \<and> length h \<le> length h'
     \<and> (\<forall>x. r = Inr x \<longrightarrow> (\<forall>a \<in> {x}. n \<le> a \<and> a < length h'))"
    unfolding h' r by simp
qed

lemma keeps_contains: "keeps n A (py_contains x key) (\<lambda>_. {})"
proof (rule keepsI)
  fix h h' r
  assume g: "good n h" and e: "py_contains x key h = (h', r)"
  from e have "h' = h" by (cases "h ! x") (simp_all add: py_contains_def)
  with g show "good n h' \<and> take n h' = take n h \<and> length h \<le> length h'
     \<and> (\<forall>x. r = Inr x \<longrightarrow> (\<forall>a \<in> {}. n \<le> a \<and> a < length h'))" by simp
qed

lemma keeps_contains_int: "keeps n A (py_contains_int x slot) (\<lambda>_. {})"
proof (rule keepsI)
  fix h h' r
  assume g: "good n h" and e: "py_contains_int x slot h = (h', r)"
  from e have "h' = h" by (cases "h ! x") (simp_all add: py_contains_int_def)
  with g show "good n h' \<and> take n h' = take n h \<and> length h \<le> length h'
     \<and> (\<forall>x. r = Inr x \<longrightarrow> (\<forall>a \<in> {}. n \<le> a \<and> a < length h'))" by simp
qed

lemma keeps_getitem:
  assumes nx: "n \<le> x" and xA: "x \<in> A"
  shows "keeps n A (py_getitem x key) (\<lambda>v. {v})"
proof (rule keepsI)
  fix h h' r
  assume g: "good n h" and v: "\<forall>a \<in> A. a < length h" and e: "py_getitem x key h = (h', r)"
  from v xA have x: "x < length h" by blast
  from e have h': "h' = h"
    by (cases "h ! x") (simp_all add: py_getitem_def split: option.splits)
  have "\<forall>y. r = Inr y \<longrightarrow> n \<le> y \<and> y < length h"
  proof (intro allI impI)
    fix y assume r: "r = Inr y"
    with e obtain items where d: "h ! x = Dict items" and m: "map_of items key = Some y"
      by (cases "h ! x") (auto simp: py_getitem_def split: option.splits)
    from m have "(key, y) \<in> set items" by (rule map_of_SomeD)
    from good_values[OF g nx x d this] show "n \<le> y \<and> y < length h" .
  qed
  with g show "good n h' \<and> take n h' = take n h \<and> length h \<le> length h'
     \<and> (\<forall>x. r = Inr x \<longrightarrow> (\<forall>a \<in> {x}. n \<le> a \<and> a < length h'))"
    unfolding h' by simp
qed

lemma keeps_setitem:
  assumes nx: "n \<le> x" and xA: "x \<in> A" and nv: "n \<le> v" and vA: "v \<in> A"
  shows "keeps n A (py_setitem x key v) (\<lambda>_. {})"
proof (rule keepsI)
  fix h h' r
  assume g: "good n h" and va: "\<forall>a \<in> A. a < length h" and e: "py_setitem x key v h = (h', r)"
  from va xA vA have x: "x < length h" and v: "v < length h" by blast+
  have "good n h' \<and> take n h' = take n h \<and> length h \<le> length h'"
  proof (cases "h ! x")
    case (Dict items)
    with e have h': "h' = h[x := Dict (AList.update key v items)]" by (simp add: py_setitem_def)
    have "good n (h[x := Dict (AList.update key v items)])"
    proof (rule good_update[OF g])
      fix its k w assume a: "Dict (AList.update key v items) = Dict its" and b: "(k, w) \<in> set its"
      then have "(k, w) \<in> set (AList.update key v items)" by simp
      then have "(k, w) = (key, v) \<or> (k, w) \<in> set items" by (rule update_entries)
      then show "n \<le> w \<and> w < length h"
      proof
        assume "(k, w) = (key, v)"
        with nv v show ?thesis by simp
      next
        assume "(k, w) \<in> set items"
        from good_values[OF g nx x Dict this] show ?thesis .
      qed
    qed
    with nx show ?thesis unfolding h' by simp
  next
    case (IntList xs)
    with e have "h' = h" by (simp add: py_setitem_def)
    with g show ?thesis by simp
  qed
  then show "good n h' \<and> take n h' = take n h \<and> length h \<le> length h'
     \<and> (\<forall>x. r = Inr x \<longrightarrow> (\<forall>a \<in> {}. n \<le> a \<and> a < length h'))" by simp
qed

lemma keeps_append:
  assumes nx: "n \<le> x"
  shows "keeps n A (py_append x slot) (\<lambda>_. {})"
proof (rule keepsI)
  fix h h' r
  assume g: "good n h" and e: "py_append x slot h = (h', r)"
  have "good n h' \<and> take n h' = take n h \<and> length h \<le> length h'"
  proof (cases "h ! x")
    case (Dict items)
    with e have "h' = h" by (simp add: py_append_def)
    with g show ?thesis by simp
  next
    case (IntList xs)
    with e have h': "h' = h[x := IntList (xs @ [slot])]" by (simp add: py_append_def)
    have "good n (h[x := IntList (xs @ [slot])])" by (rule good_update[OF g]) simp
    with nx show ?thesis unfolding h' by simp
  qed
  then show "good n h' \<and> take n h' = take n h \<and> length h \<le> length h'
     \<and> (\<forall>x. r = Inr x \<longrightarrow> (\<forall>a \<in> {}. n \<le> a \<and> a < length h'))" by simp
qed

lemma keeps_unit: "keeps n A (py_return ()) (\<lambda>_. {})"
  by (rule keeps_return) simp

lemma keeps_room_of:
  assumes "n \<le> usage" "usage \<in> A"
  shows "keeps n A (room_of usage rtype room) (\<lambda>v. {v})"
  unfolding room_of_def
proof (rule keeps_bind[where F = "\<lambda>v. {v}"])
  show "keeps n A (py_getitem usage rtype) (\<lambda>v. {v})" by (rule keeps_getitem[OF assms])
next
  fix rooms assume "\<forall>a \<in> {rooms}. n \<le> a"
  then show "keeps n (A \<union> {rooms}) (py_getitem rooms room) (\<lambda>v. {v})"
    by (intro keeps_getitem) simp_all
qed

lemma keeps_day_of:
  assumes "n \<le> usage" "usage \<in> A"
  shows "keeps n A (day_of usage rtype room day) (\<lambda>v. {v})"
  unfolding day_of_def
proof (rule keeps_bind[where F = "\<lambda>v. {v}"])
  show "keeps n A (room_of usage rtype room) (\<lambda>v. {v})" by (rule keeps_room_of[OF assms])
next
  fix days assume "\<forall>a \<in> {days}. n \<le> a"
  then show "keeps n (A \<union> {days}) (py_getitem days day) (\<lambda>v. {v})"
    by (intro keeps_getitem) simp_all
qed

lemma keeps_has_room:
  assumes "n \<le> usage" "usage \<in> A"
  shows "keeps n A (py_bind (py_getitem usage rtype) (\<lambda>rooms. py_contains rooms room)) (\<lambda>_. {})"
proof (rule keeps_bind[where F = "\<lambda>v. {v}"])
  show "keeps n A (py_getitem usage rtype) (\<lambda>v. {v})" by (rule keeps_getitem[OF assms])
next
  fix rooms
  show "keeps n (A \<union> {rooms}) (py_contains rooms room) (\<lambda>_. {})" by (rule keeps_contains)
qed

lemma keeps_has_day:
  assumes "n \<le> usage" "usage \<in> A"
  shows "keeps n A (py_bind (room_of usage rtype room) (\<lambda>days. py_contains days day)) (\<lambda>_. {})"
proof (rule keeps_bind[where F = "\<lambda>v. {v}"])
  show "keeps n A (room_of usage rtype room) (\<lambda>v. {v})" by (rule keeps_room_of[OF assms])
next
  fix days
  show "keeps n (A \<union> {days}) (py_contains days day) (\<lambda>_. {})" by (rule keeps_contains)
qed

lemma keeps_has_slot:
  assumes "n \<le> usage" "usage \<in> A"
  shows "keeps n A (py_bind (day_of usage rtype room day) (\<lambda>slots. py_contains_int slots slot)) (\<lambda>_. {})"
proof (rule keeps_bind[where F = "\<lambda>v. {v}"])
  show "keeps n A (day_of usage rtype room day) (\<lambda>v. {v})" by (rule keeps_day_of[OF assms])
next
  fix slots
  show "keeps n (A \<union> {slots}) (py_contains_int slots slot) (\<lambda>_. {})" by (rule keeps_contains_int)
qed

lemma keeps_new_room:
  assumes "n \<le> usage" "usage \<in> A"
  shows "keeps n A (py_bind new_dict (\<lambda>d.
           py_bind (py_getitem usage rtype) (\<lambda>rooms. py_setitem rooms room d))) (\<lambda>_. {})"
proof (rule keeps_bind[where F = "\<lambda>v. {v}"])
  show "keeps n A new_dict (\<lambda>v. {v})" by (rule keeps_new_dict)
next
  fix d assume d: "\<forall>a \<in> {d}. n \<le> a"
  show "keeps n (A \<union> {d}) (py_bind (py_getitem usage rtype) (\<lambda>rooms. py_setitem rooms room d)) (\<lambda>_. {})"
  proof (rule keeps_bind[where F = "\<lambda>v. {v}"])
    show "keeps n (A \<union> {d}) (py_getitem usage rtype) (\<lambda>v. {v})"
      using assms by (intro keeps_getitem) simp_all
  next
    fix rooms assume "\<forall>a \<in> {rooms}. n \<le> a"
    with d show "keeps n (A \<union> {d} \<union> {rooms}) (py_setitem rooms room d) (\<lambda>_. {})"
      by (intro keeps_setitem) simp_all
  qed
qed

lemma keeps_new_day:
  assumes "n \<le> usage" "usage \<in> A"
  shows "keeps n A (py_bind new_list (\<lambda>l.
           py_bind (room_of usage rtype room) (\<lambda>days. py_setitem days day l))) (\<lambda>_. {})"
proof (rule keeps_bind[where F = "\<lambda>v. {v}"])
  show "keeps n A new_list (\<lambda>v. {v})" by (rule keeps_new_list)
next
  fix l assume l: "\<forall>a \<in> {l}. n \<le> a"
  show "keeps n (A \<union> {l}) (py_bind (room_of usage rtype room) (\<lambda>days. py_setitem days day l)) (\<lambda>_. {})"
  proof (rule keeps_bind[where F = "\<lambda>v. {v}"])
    show "keeps n (A \<union> {l}) (room_of usage rtype room) (\<lambda>v. {v})"
      using assms by (intro keeps_room_of) simp_all
  next
    fix days assume "\<forall>a \<in> {days}. n \<le> a"
    with l show "keeps n (A \<union> {l} \<union> {days}) (py_setitem days day l) (\<lambda>_. {})"
      by (intro keeps_setitem) simp_all
  qed
qed

lemma keeps_add_slot:
  assumes "n \<le> usage" "usage \<in> A"
  shows "keeps n A (py_bind (day_of usage rtype room day) (\<lambda>slots. py_append slots slot)) (\<lambda>_. {})"
proof (rule keeps_bind[where F = "\<lambda>v. {v}"])
  show "keeps n A (day_of usage rtype room day) (\<lambda>v. {v})" by (rule keeps_day_of[OF assms])
next
  fix slots assume "\<forall>a \<in> {slots}. n \<le> a"
  then show "keeps n (A \<union> {slots}) (py_append slots slot) (\<lambda>_. {})"
    by (intro keeps_append) simp
qed

lemma keeps_merge_step:
  assumes u: "n \<le> usage" "usage \<in> A"
  shows "keeps n A (merge_step_store usage alloc) (\<lambda>_. {})"
proof -
  obtain rtype room day slot label where a: "alloc = (rtype, room, day, slot, label)"
    by (cases alloc) auto
  have s6: "keeps n A (if b then py_return ()
              else py_bind (day_of usage rtype room day) (\<lambda>slots. py_append slots slot)) (\<lambda>_. {})" for b
    by (cases b) (simp_all add: keeps_unit keeps_add_slot[OF u])
  have s4: "keeps n A (if b then py_return ()
              else py_bind new_list (\<lambda>l.
                   py_bind (room_of usage rtype room) (\<lambda>days. py_setitem days day l))) (\<lambda>_. {})" for b
    by (cases b) (simp_all add: keeps_unit keeps_new_day[OF u])
  have s2: "keeps n A (if b then py_return ()
              else py_bind new_dict (\<lambda>d.
                   py_bind (py_getitem usage rtype) (\<lambda>rooms. py_setitem rooms room d))) (\<lambda>_. {})" for b
    by (cases b) (simp_all add: keeps_unit keeps_new_room[OF u])
  show ?thesis
    unfolding a merge_step_store.simps
    apply (rule keeps_bind[where F = "\<lambda>_. {}"], rule keeps_has_room[OF u], simp only: Un_empty_right)
    apply (rule keeps_bind[where F = "\<lambda>_. {}"], rule s2, simp only: Un_empty_right)
    apply (rule keeps_bind[where F = "\<lambda>_. {}"], rule keeps_has_day[OF u], simp only: Un_empty_right)
    apply (rule keeps_bind[where F = "\<lambda>_. {}"], rule s4, simp only: Un_empty_right)
    apply (rule keeps_bind[where F = "\<lambda>_. {}"], rule keeps_has_slot[OF u], simp only: Un_empty_right)
    apply (rule s6)
    done
qed

lemma keeps_merge_loop:
  assumes u: "n \<le> usage" "usage \<in> A"
  shows "keeps n A (merge_loop_store usage allocs) (\<lambda>_. {})"
proof (induction allocs)
  case Nil
  show ?case by (simp add: keeps_unit)
next
  case (Cons a as)
  show ?case
    unfolding merge_loop_store.simps
    apply (rule keeps_bind[where F = "\<lambda>_. {}"], rule keeps_merge_step[OF u], simp only: Un_empty_right)
    apply (rule Cons.IH)
    done
qed

lemma keeps_ensure_kind:
  assumes u: "n \<le> usage" "usage \<in> A"
  shows "keeps n A (ensure_kind_store usage kind) (\<lambda>_. {})"
  unfolding ensure_kind_store_def
proof (rule keeps_bind[where F = "\<lambda>_. {}"])
  show "keeps n A (py_contains usage kind) (\<lambda>_. {})" by (rule keeps_contains)
next
  fix present
  have "keeps n A (py_bind new_dict (\<lambda>d. py_setitem usage kind d)) (\<lambda>_. {})"
  proof (rule keeps_bind[where F = "\<lambda>v. {v}"])
    show "keeps n A new_dict (\<lambda>v. {v})" by (rule keeps_new_dict)
  next
    fix d assume "\<forall>a \<in> {d}. n \<le> a"
    with u show "keeps n (A \<union> {d}) (py_setitem usage kind d) (\<lambda>_. {})"
      by (intro keeps_setitem) simp_all
  qed
  then show "keeps n (A \<union> {}) (if present then py_return ()
       else py_bind new_dict (\<lambda>d. py_setitem usage kind d)) (\<lambda>_. {})"
    by (cases present) (simp_all add: keeps_unit)
qed

lemma memo_addrs_simp: "memo_addrs (memo, y) = insert y (snd ` set memo)"
  by (simp add: memo_addrs_def)

lemma keeps_deepcopy_both:
  "(\<forall>A. (\<forall>z \<in> snd ` set memo. n \<le> z) \<longrightarrow> snd ` set memo \<subseteq> A
        \<longrightarrow> keeps n A (deepcopy depth memo x) memo_addrs)"
  "(\<forall>A. (\<forall>z \<in> snd ` set memo'. n \<le> z) \<longrightarrow> snd ` set memo' \<subseteq> A \<longrightarrow> n \<le> y \<longrightarrow> y \<in> A
        \<longrightarrow> keeps n A (copy_items depth' memo' y items) memo_addrs)"
proof (induction depth memo x and depth' memo' y items rule: deepcopy_copy_items.induct)
  case (1 memo x)
  show ?case by (simp add: keeps_raise)
next
  case (2 depth memo x)
  show ?case
  proof (intro allI impI)
    fix A assume f: "\<forall>z \<in> snd ` set memo. n \<le> z" and s: "snd ` set memo \<subseteq> A"
    show "keeps n A (deepcopy (Suc depth) memo x) memo_addrs"
    proof (cases "map_of memo x")
      case (Some y)
      then have "(x, y) \<in> set memo" by (rule map_of_SomeD)
      then have "y \<in> snd ` set memo" by force
      with f s have "\<forall>a \<in> memo_addrs (memo, y). n \<le> a \<and> a \<in> A"
        by (auto simp: memo_addrs_simp)
      then have "keeps n A (py_return (memo, y)) memo_addrs" by (rule keeps_return)
      with Some show ?thesis by simp
    next
      case None
      show ?thesis
      proof (rule keepsI)
        fix h h' r
        assume g: "good n h" and v: "\<forall>a \<in> A. a < length h"
          and e: "deepcopy (Suc depth) memo x h = (h', r)"
        note l = good_length[OF g]
        show "good n h' \<and> take n h' = take n h \<and> length h \<le> length h'
           \<and> (\<forall>x. r = Inr x \<longrightarrow> (\<forall>a \<in> memo_addrs x. n \<le> a \<and> a < length h'))"
        proof (cases "h ! x")
          case (IntList xs)
          with e None have h': "h' = h @ [IntList xs]"
            and r: "r = Inr ((x, length h) # memo, length h)" by simp_all
          have g': "good n (h @ [IntList xs])" by (rule good_append[OF g]) simp
          have "\<forall>z \<in> snd ` set memo. n \<le> z \<and> z < length h" using f s v by blast
          then have "\<forall>a \<in> memo_addrs ((x, length h) # memo, length h). n \<le> a \<and> a < length h'"
            unfolding h' using l by (auto simp: memo_addrs_simp less_Suc_eq)
          with g' l show ?thesis unfolding h' r by simp
        next
          case (Dict its)
          let ?h1 = "h @ [Dict []]"
          let ?A = "insert (length h) A"
          from e None Dict have e1:
            "copy_items depth ((x, length h) # memo) (length h) its ?h1 = (h', r)" by simp
          have g1: "good n ?h1" by (rule good_append[OF g]) simp
          have v1: "\<forall>a \<in> ?A. a < length ?h1" using v by auto
          have f1: "\<forall>z \<in> snd ` set ((x, length h) # memo). n \<le> z" using f l by auto
          have s1: "snd ` set ((x, length h) # memo) \<subseteq> ?A" using s by auto
          from 2[OF None Dict] f1 s1 l
          have k: "keeps n ?A (copy_items depth ((x, length h) # memo) (length h) its) memo_addrs"
            by blast
          note d = keepsD[OF k g1 v1 e1]
          from d(1) d(2) d(3) l
          have "good n h' \<and> take n h' = take n h \<and> length h \<le> length h'" by simp
          moreover have "\<forall>x. r = Inr x \<longrightarrow> (\<forall>a \<in> memo_addrs x. n \<le> a \<and> a < length h')"
            using d(4) by blast
          ultimately show ?thesis by blast
        qed
      qed
    qed
  qed
next
  case (3 depth memo y)
  show ?case
  proof (intro allI impI)
    fix A assume "\<forall>z \<in> snd ` set memo. n \<le> z" "snd ` set memo \<subseteq> A" "n \<le> y" "y \<in> A"
    then have "\<forall>a \<in> memo_addrs (memo, y). n \<le> a \<and> a \<in> A"
      by (auto simp: memo_addrs_simp)
    then show "keeps n A (copy_items depth memo y []) memo_addrs"
      by (simp add: keeps_return)
  qed
next
  case (4 depth memo y key v rest)
  show ?case
  proof (intro allI impI)
    fix A assume f: "\<forall>z \<in> snd ` set memo. n \<le> z" and s: "snd ` set memo \<subseteq> A"
      and ny: "n \<le> y" and yA: "y \<in> A"
    from 4(1) f s have k1: "keeps n A (deepcopy depth memo v) memo_addrs" by blast
    have k2: "keeps n (A \<union> memo_addrs c)
                (case c of (memo', v') \<Rightarrow>
                   py_bind (py_setitem y key v') (\<lambda>_. copy_items depth memo' y rest)) memo_addrs"
      if c: "\<forall>a \<in> memo_addrs c. n \<le> a" for c
    proof -
      obtain memo' v' where cc: "c = (memo', v')" by (cases c)
      let ?A = "A \<union> memo_addrs (memo', v')"
      from c have nv: "n \<le> v'" and f': "\<forall>z \<in> snd ` set memo'. n \<le> z"
        unfolding cc by (auto simp: memo_addrs_simp)
      have s': "snd ` set memo' \<subseteq> ?A" by (auto simp: memo_addrs_simp)
      have vA: "v' \<in> ?A" by (simp add: memo_addrs_simp)
      have yA': "y \<in> ?A" using yA by simp
      have a: "keeps n ?A (py_setitem y key v') (\<lambda>_. {})"
        by (rule keeps_setitem[OF ny yA' nv vA])
      from 4(2) f' s' ny yA'
      have b: "keeps n ?A (copy_items depth memo' y rest) memo_addrs" by blast
      have "keeps n ?A (py_bind (py_setitem y key v') (\<lambda>_. copy_items depth memo' y rest)) memo_addrs"
        apply (rule keeps_bind[where F = "\<lambda>_. {}"], rule a, simp only: Un_empty_right)
        apply (rule b)
        done
      then show ?thesis unfolding cc by simp
    qed
    have "keeps n A (py_bind (deepcopy depth memo v) (\<lambda>c. case c of (memo', v') \<Rightarrow>
             py_bind (py_setitem y key v') (\<lambda>_. copy_items depth memo' y rest))) memo_addrs"
      by (rule keeps_bind[where F = memo_addrs, OF k1 k2])
    then show "keeps n A (copy_items depth memo y ((key, v) # rest)) memo_addrs"
      by simp
  qed
qed

lemma keeps_deepcopy: "keeps n A (deepcopy depth [] x) memo_addrs"
  using keeps_deepcopy_both(1)[of "[]" n depth x] by simp

lemma keeps_merge_usage_data: "keeps n A (merge_usage_data_store depth x allocs) (\<lambda>usage. {usage})"
  unfolding merge_usage_data_store_def
proof (rule keeps_bind[where F = memo_addrs, OF keeps_deepcopy])
  fix c :: "(nat \<times> nat) list \<times> nat"
  assume c: "\<forall>a \<in> memo_addrs c. n \<le> a"
  obtain memo usage where cc: "c = (memo, usage)" by (cases c)
  let ?A = "A \<union> memo_addrs (memo, usage)"
  from c have u: "n \<le> usage" unfolding cc by (simp add: memo_addrs_simp)
  have uA: "usage \<in> ?A" by (simp add: memo_addrs_simp)
  have "keeps n ?A
     (py_bind (ensure_kind_store usage ''theory'') (\<lambda>_.
      py_bind (ensure_kind_store usage ''lab'') (\<lambda>_.
      py_bind (merge_loop_store usage allocs) (\<lambda>_.
      py_return usage)))) (\<lambda>usage. {usage})"
    apply (rule keeps_bind[where F = "\<lambda>_. {}"], rule keeps_ensure_kind[OF u uA], simp only: Un_empty_right)
    apply (rule keeps_bind[where F = "\<lambda>_. {}"], rule keeps_ensure_kind[OF u uA], simp only: Un_empty_right)
    apply (rule keeps_bind[where F = "\<lambda>_. {}"], rule keeps_merge_loop[OF u uA], simp only: Un_empty_right)
    apply (rule keeps_return)
    using u uA apply simp
    done
  then show "keeps n (A \<union> memo_addrs c)
     (case c of (memo, usage) \<Rightarrow>
      py_bind (ensure_kind_store usage ''theory'') (\<lambda>_.
      py_bind (ensure_kind_store usage ''lab'') (\<lambda>_.
      py_bind (merge_loop_store usage allocs) (\<lambda>_.
      py_return usage)))) (\<lambda>usage. {usage})"
    unfolding cc by simp
qed

lemma good_start: "good (length h) h"
  by (simp add: good_def fresh_closed_def)

lemma merge_extends:
  assumes "merge_usage_data_store depth x allocs h = (h', r)"
  shows "take (length h) h' = h" "length h \<le> length h'" "r = Inr usage \<Longrightarrow> length h \<le> usage \<and> usage < length h'"
proof -
  have k: "keeps (length h) {} (merge_usage_data_store depth x allocs) (\<lambda>usage. {usage})"
    by (rule keeps_merge_usage_data)
  have v: "\<forall>a \<in> {}. a < length h" by simp
  note d = keepsD[OF k good_start v assms]
  from d(2) show "take (length h) h' = h" by simp
  from d(3) show "length h \<le> length h'" .
  show "r = Inr usage \<Longrightarrow> length h \<le> usage \<and> usage < length h'"
    using d(4)[of usage usage] by simp
qed

lemma usage_loop_extends:
  "usage_loop depth cur results h = (h', r) \<Longrightarrow> take (length h) h' = h \<and> length h \<le> length h'"
proof (induction results arbitrary: cur h)
  case Nil
  then show ?case by (simp add: py_return_def)
next
  case (Cons allocs rest)
  obtain h1 r1 where e1: "merge_usage_data_store depth cur allocs h = (h1, r1)"
    by (cases "merge_usage_data_store depth cur allocs h")
  note m = merge_extends(1,2)[OF e1]
  show ?case
  proof (cases r1)
    case (Inl e)
    with Cons.prems e1 have "h' = h1" by (simp add: py_bind_def)
    with m show ?thesis by simp
  next
    case (Inr cur')
    with Cons.prems e1 have "usage_loop depth cur' rest h1 = (h', r)" by (simp add: py_bind_def)
    from Cons.IH[OF this] have t: "take (length h1) h' = h1" and l: "length h1 \<le> length h'" by simp_all
    from m(2) have "take (length h) h' = take (length h) (take (length h1) h')" by (simp add: min_def)
    with t m show ?thesis using l by simp
  qed
qed

lemma hierarchical_extends:
  assumes "hierarchical_usage depth caller_usage results h = (h', r)"
  shows "take (length h) h' = h"
proof -
  from assms have "usage_loop depth (length h) results (h @ [h ! caller_usage]) = (h', r)"
    by (simp add: hierarchical_usage_def py_bind_def py_copy_def)
  from usage_loop_extends[OF this]
  have t: "take (Suc (length h)) h' = h @ [h ! caller_usage]" and l: "Suc (length h) \<le> length h'"
    by simp_all
  have "take (length h) h' = take (length h) (take (Suc (length h)) h')" by (simp add: min_def)
  then show ?thesis unfolding t by simp
qed

text \<open>
  Claim C10: whatever the call of \<open>merge_usage_data\<close> returns or raises, every object that
  was in the store before the call, the ledger given and its nested room and day dicts and
  slot lists among them, is the same after it (the store after the call begins with the
  store before it), and the returned ledger is a new object; the same holds for the ledger
  a caller gives to \<open>schedule_hierarchical\<close>, through the shallow copy and all the merges.
\<close>

theorem merge_usage_data_leaves_input:
  "take (length h) (fst (merge_usage_data_store depth existing_usage new_allocations h)) = h
   \<and> (\<forall>usage. snd (merge_usage_data_store depth existing_usage new_allocations h) = Inr usage
         \<longrightarrow> length h \<le> usage)
   \<and> take (length h) (fst (hierarchical_usage depth caller_usage results h)) = h"
proof -
  obtain h1 r1 where e1: "merge_usage_data_store depth existing_usage new_allocations h = (h1, r1)"
    by (cases "merge_usage_data_store depth existing_usage new_allocations h")
  obtain h2 r2 where e2: "hierarchical_usage depth caller_usage results h = (h2, r2)"
    by (cases "hierarchical_usage depth caller_usage results h")
  from merge_extends(1)[OF e1] have a: "take (length h) h1 = h" .
  from merge_extends(3)[OF e1] have b: "\<forall>usage. r1 = Inr usage \<longrightarrow> length h \<le> usage" by blast
  from hierarchical_extends[OF e2] have c: "take (length h) h2 = h" .
  from a b c show ?thesis unfolding e1 e2 by simp
qed

lemma demo_merge:
  "merge_usage_data_store 10 0 demo_allocations demo_heap =
     (demo_heap @
      [Dict [(''theory'', 7), (''lab'', 10)], Dict [(''R1'', 8)],
       Dict [(''Monday'', 9)], IntList [0, 1], Dict [(''L1'', 11)],
       Dict [(''Tuesday'', 12)], IntList [0]],
      Inr 6)"
  by code_simp

lemma demo_hierarchical:
  "fst (hierarchical_usage 10 0 [demo_allocations] demo_heap) =
     demo_heap @
      [Dict [(''theory'', 1), (''lab'', 2)],
       Dict [(''theory'', 8), (''lab'', 11)], Dict [(''R1'', 9)],
       Dict [(''Monday'', 10)], IntList [0, 1], Dict [(''L1'', 12)],
       Dict [(''Tuesday'', 13)], IntList [0]]"
  by code_simp

lemma demo_read:
  "read_usage (fst (merge_usage_data_store 10 0 demo_allocations demo_heap)) 6
     = [(''theory'', [(''R1'', [(''Monday'', [0, 1])])]), (''lab'', [(''L1'', [(''Tuesday'', [0])])])]"
  "merge_usage_data (read_usage demo_heap 0) demo_allocations
     = Inr [(''theory'', [(''R1'', [(''Monday'', [0, 1])])]), (''lab'', [(''L1'', [(''Tuesday'', [0])])])]"
  "read_usage (fst (merge_usage_data_store 10 0 demo_allocations demo_heap)) 0
     = [(''theory'', [(''R1'', [(''Monday'', [0])])]), (''lab'', [(''L1'', [])])]"
  by code_simp+

text \<open>The instance: the copy at address 6 holds the merged ledger, the ledger at 0 is as before.\<close>

theorem merge_usage_data_leaves_input_witness:
  "snd (merge_usage_data_store 10 0 demo_allocations demo_heap) = Inr 6
   \<and> length demo_heap = 6
   \<and> take (length demo_heap) (fst (merge_usage_data_store 10 0 demo_allocations demo_heap)) = demo_heap
   \<and> take (length demo_heap) (fst (hierarchical_usage 10 0 [demo_allocations] demo_heap)) = demo_heap
   \<and> read_usage (fst (merge_usage_data_store 10 0 demo_allocations demo_heap)) 6
       = [(''theory'', [(''R1'', [(''Monday'', [0, 1])])]), (''lab'', [(''L1'', [(''Tuesday'', [0])])])]
   \<and> read_usage (fst (merge_usage_data_store 10 0 demo_allocations demo_heap)) 0
       = [(''theory'', [(''R1'', [(''Monday'', [0])])]), (''lab'', [(''L1'', [])])]"
proof -
  have s: "snd (merge_usage_data_store 10 0 demo_allocations demo_heap) = Inr 6"
    by (simp add: demo_merge)
  have l: "length demo_heap = 6" by (simp add: demo_heap_def)
  from merge_usage_data_leaves_input[of demo_heap 10 0 demo_allocations 0 "[demo_allocations]"]
  have "take (length demo_heap) (fst (merge_usage_data_store 10 0 demo_allocations demo_heap)) = demo_heap"
    and "take (length demo_heap) (fst (hierarchical_usage 10 0 [demo_allocations] demo_heap)) = demo_heap"
    by simp_all
  with s l demo_read(1,3) show ?thesis by simp
qed


end
